theory Spec2Isabelle
  imports Main
begin

section \<open>mxEvent.js: DOM events\<close>

text \<open>
  The fields of an event object that \<^verbatim>\<open>mxEvent\<close> reads or writes. A JavaScript
  field that is \<^verbatim>\<open>undefined\<close> or \<^verbatim>\<open>null\<close> (the source tests both with
  \<^verbatim>\<open>!= null\<close>) is \<open>None\<close>. Coordinates are only passed through, so their type is
  a parameter. The two native methods are either present or absent on the object;
  calling one appends to \<open>invoked\<close>, calling an absent one is a \<^verbatim>\<open>TypeError\<close>.
\<close>

datatype native_call = StopPropagation | PreventDefault

datatype js_error = TypeError

record 'n touch =
  touch_clientX :: 'n
  touch_clientY :: 'n

record 'n dom_event =
  evtype :: string
  isConsumedField :: "bool option"
  hasPreventDefault :: bool
  hasStopPropagation :: bool
  cancelBubble :: "bool option"
  returnValue :: "bool option"
  touches :: "'n touch list option"
  changedTouches :: "'n touch list option"
  clientX :: 'n
  clientY :: 'n
  invoked :: "native_call list"

text \<open>\<^verbatim>\<open>isConsumed(evt)\<close>: \<^verbatim>\<open>evt.isConsumed != null && evt.isConsumed\<close>.\<close>

definition isConsumed :: "'n dom_event \<Rightarrow> bool" where
  "isConsumed evt = (case isConsumedField evt of None \<Rightarrow> False | Some b \<Rightarrow> b)"

text \<open>The calls \<^verbatim>\<open>evt.stopPropagation()\<close> and \<^verbatim>\<open>evt.preventDefault()\<close>.\<close>

definition call_stopPropagation :: "'n dom_event \<Rightarrow> js_error + 'n dom_event" where
  "call_stopPropagation evt =
     (if hasStopPropagation evt then Inr (evt\<lparr>invoked := invoked evt @ [StopPropagation]\<rparr>)
      else Inl TypeError)"

definition call_preventDefault :: "'n dom_event \<Rightarrow> js_error + 'n dom_event" where
  "call_preventDefault evt =
     (if hasPreventDefault evt then Inr (evt\<lparr>invoked := invoked evt @ [PreventDefault]\<rparr>)
      else Inl TypeError)"

text \<open>
  \<^verbatim>\<open>consume(evt, preventDefault, stopPropagation)\<close>. Both flags default to true when
  they are null. The first \<^verbatim>\<open>if\<close> block is \<open>consume_block\<close>; the two assignments
  after it are in \<open>consume\<close>.
\<close>

definition consume_block :: "'n dom_event \<Rightarrow> bool \<Rightarrow> bool \<Rightarrow> js_error + 'n dom_event" where
  "consume_block evt preventDefault stopPropagation =
     (if preventDefault then
        (if hasPreventDefault evt then
           (case (if stopPropagation then call_stopPropagation evt else Inr evt) of
              Inl err \<Rightarrow> Inl err
            | Inr evt1 \<Rightarrow> call_preventDefault evt1)
         else if stopPropagation then Inr (evt\<lparr>cancelBubble := Some True\<rparr>)
         else Inr evt)
      else Inr evt)"

definition consume ::
  "'n dom_event \<Rightarrow> bool option \<Rightarrow> bool option \<Rightarrow> js_error + 'n dom_event" where
  "consume evt preventDefault stopPropagation =
     (let pd = (case preventDefault of None \<Rightarrow> True | Some b \<Rightarrow> b);
          sp = (case stopPropagation of None \<Rightarrow> True | Some b \<Rightarrow> b)
      in case consume_block evt pd sp of
           Inl err \<Rightarrow> Inl err
         | Inr evt1 \<Rightarrow>
             (let evt2 = evt1\<lparr>isConsumedField := Some True\<rparr>
              in Inr (if \<not> hasPreventDefault evt2 then evt2\<lparr>returnValue := Some False\<rparr>
                      else evt2)))"

text \<open>
  \<^verbatim>\<open>getMainEvent(e)\<close> returns either the event itself or one of its touch points;
  \<^verbatim>\<open>e.touches[0] != null\<close> holds exactly when the list has a first element.
\<close>

datatype 'n main_event = OwnEvent "'n dom_event" | TouchPoint "'n touch"

definition getMainEvent :: "'n dom_event \<Rightarrow> 'n main_event" where
  "getMainEvent e =
     (if (evtype e = ''touchstart'' \<or> evtype e = ''touchmove'')
          \<and> touches e \<noteq> None \<and> the (touches e) \<noteq> []
      then TouchPoint (hd (the (touches e)))
      else if evtype e = ''touchend''
          \<and> changedTouches e \<noteq> None \<and> the (changedTouches e) \<noteq> []
      then TouchPoint (hd (the (changedTouches e)))
      else OwnEvent e)"

definition getClientX :: "'n dom_event \<Rightarrow> 'n" where
  "getClientX e = (case getMainEvent e of OwnEvent e' \<Rightarrow> clientX e' | TouchPoint t \<Rightarrow> touch_clientX t)"

definition getClientY :: "'n dom_event \<Rightarrow> 'n" where
  "getClientY e = (case getMainEvent e of OwnEvent e' \<Rightarrow> clientY e' | TouchPoint t \<Rightarrow> touch_clientY t)"

section \<open>mxEvent.js: listeners on DOM nodes\<close>

text \<open>
  A node (or window) carries the bookkeeping array \<^verbatim>\<open>mxListenerList\<close> of
  \<^verbatim>\<open>{name, f}\<close> entries (\<open>None\<close> when the field is null or was never set) and
  the listeners that the browser holds for it. Functions are compared by identity
  (\<^verbatim>\<open>===\<close>), so a listener is a value of any type \<open>'f\<close> with equality.
\<close>

datatype 'f entry = Entry (entry_name: string) (entry_f: 'f)

record 'f node =
  mxListenerList :: "'f entry list option"
  native :: "(string \<times> 'f) list"

text \<open>
  The browser's side of \<^verbatim>\<open>element.addEventListener(eventName, funct, ...)\<close> and
  \<^verbatim>\<open>element.removeEventListener(eventName, funct, false)\<close>, both called without
  capture: a listener already registered for the same event name is not added again,
  and removal takes the one registration out.
\<close>

definition addEventListener :: "'f node \<Rightarrow> string \<Rightarrow> 'f \<Rightarrow> 'f node" where
  "addEventListener element eventName funct =
     (if (eventName, funct) \<in> set (native element) then element
      else element\<lparr>native := native element @ [(eventName, funct)]\<rparr>)"

definition removeEventListener :: "'f node \<Rightarrow> string \<Rightarrow> 'f \<Rightarrow> 'f node" where
  "removeEventListener element eventName funct =
     element\<lparr>native := removeAll (eventName, funct) (native element)\<rparr>"

definition addListener :: "'f node \<Rightarrow> string \<Rightarrow> 'f \<Rightarrow> 'f node" where
  "addListener element eventName funct =
     (let element1 = addEventListener element eventName funct;
          list = (case mxListenerList element1 of None \<Rightarrow> [] | Some l \<Rightarrow> l);
          entry = Entry eventName funct
      in element1\<lparr>mxListenerList := Some (list @ [entry])\<rparr>)"

text \<open>
  The \<^verbatim>\<open>for\<close> loop of \<^verbatim>\<open>removeListener\<close>: the first entry whose \<^verbatim>\<open>f\<close> is the
  given function is spliced out and the loop breaks.
\<close>

fun splice_first :: "'f \<Rightarrow> 'f entry list \<Rightarrow> 'f entry list" where
  "splice_first funct [] = []"
| "splice_first funct (entry # rest) =
     (if entry_f entry = funct then rest else entry # splice_first funct rest)"

definition removeListener :: "'f node \<Rightarrow> string \<Rightarrow> 'f \<Rightarrow> 'f node" where
  "removeListener element eventName funct =
     (let element1 = removeEventListener element eventName funct
      in case mxListenerList element1 of
           None \<Rightarrow> element1
         | Some list \<Rightarrow>
             (let list1 = splice_first funct list
              in if length list1 = 0 then element1\<lparr>mxListenerList := None\<rparr>
                 else element1\<lparr>mxListenerList := Some list1\<rparr>))"

text \<open>
  \<^verbatim>\<open>removeAllListeners\<close>: the local \<^verbatim>\<open>list\<close> is the same array object as
  \<^verbatim>\<open>element.mxListenerList\<close>, so the splice that \<^verbatim>\<open>removeListener\<close> does on the
  element's array is seen through \<^verbatim>\<open>list\<close>; the loop carries both.
\<close>

function removeAllListeners_loop :: "'f node \<Rightarrow> 'f entry list \<Rightarrow> 'f node" where
  "removeAllListeners_loop element list =
     (if length list > 0 then
        (let entry = hd list
         in removeAllListeners_loop
              (removeListener element (entry_name entry) (entry_f entry))
              (splice_first (entry_f entry) list))
      else element)"
  by pat_completeness auto
termination
proof (relation "measure (\<lambda>(element, list). length list)")
  show "wf (measure (\<lambda>(element :: 'f node, list :: 'f entry list). length list))"
    by simp
next
  fix element :: "'f node" and list :: "'f entry list" and x
  assume "0 < length list" "x = hd list"
  then show "((removeListener element (entry_name x) (entry_f x),
               splice_first (entry_f x) list), element, list)
             \<in> measure (\<lambda>(element, list). length list)"
    by (cases list) auto
qed

declare removeAllListeners_loop.simps [simp del]

definition removeAllListeners :: "'f node \<Rightarrow> 'f node" where
  "removeAllListeners element =
     (case mxListenerList element of
        None \<Rightarrow> element
      | Some list \<Rightarrow> removeAllListeners_loop element list)"

text \<open>
  The constants \<^verbatim>\<open>mxClient.IS_POINTER\<close> and \<^verbatim>\<open>mxClient.IS_TOUCH\<close> come from a
  module outside these sources; they are parameters here.
\<close>

record mxClient =
  IS_POINTER :: bool
  IS_TOUCH :: bool

text \<open>A listener argument that is null is \<open>None\<close>; \<open>when_given\<close> is the guard
  \<^verbatim>\<open>if (listener != null) { ... }\<close>.\<close>

definition when_given :: "'f option \<Rightarrow> ('f \<Rightarrow> 'a \<Rightarrow> 'a) \<Rightarrow> 'a \<Rightarrow> 'a" where
  "when_given listener act x = (case listener of None \<Rightarrow> x | Some funct \<Rightarrow> act funct x)"

definition addGestureListeners ::
  "mxClient \<Rightarrow> 'f node \<Rightarrow> 'f option \<Rightarrow> 'f option \<Rightarrow> 'f option \<Rightarrow> 'f node" where
  "addGestureListeners client node startListener moveListener endListener =
     (let node1 = when_given startListener (\<lambda>funct n. addListener n
                    (if IS_POINTER client then ''pointerdown'' else ''mousedown'') funct) node;
          node2 = when_given moveListener (\<lambda>funct n. addListener n
                    (if IS_POINTER client then ''pointermove'' else ''mousemove'') funct) node1;
          node3 = when_given endListener (\<lambda>funct n. addListener n
                    (if IS_POINTER client then ''pointerup'' else ''mouseup'') funct) node2
      in if \<not> IS_POINTER client \<and> IS_TOUCH client then
           (let node4 = when_given startListener (\<lambda>funct n. addListener n ''touchstart'' funct) node3;
                node5 = when_given moveListener (\<lambda>funct n. addListener n ''touchmove'' funct) node4
            in when_given endListener (\<lambda>funct n. addListener n ''touchend'' funct) node5)
         else node3)"

definition removeGestureListeners ::
  "mxClient \<Rightarrow> 'f node \<Rightarrow> 'f option \<Rightarrow> 'f option \<Rightarrow> 'f option \<Rightarrow> 'f node" where
  "removeGestureListeners client node startListener moveListener endListener =
     (let node1 = when_given startListener (\<lambda>funct n. removeListener n
                    (if IS_POINTER client then ''pointerdown'' else ''mousedown'') funct) node;
          node2 = when_given moveListener (\<lambda>funct n. removeListener n
                    (if IS_POINTER client then ''pointermove'' else ''mousemove'') funct) node1;
          node3 = when_given endListener (\<lambda>funct n. removeListener n
                    (if IS_POINTER client then ''pointerup'' else ''mouseup'') funct) node2
      in if \<not> IS_POINTER client \<and> IS_TOUCH client then
           (let node4 = when_given startListener (\<lambda>funct n. removeListener n ''touchstart'' funct) node3;
                node5 = when_given moveListener (\<lambda>funct n. removeListener n ''touchmove'' funct) node4
            in when_given endListener (\<lambda>funct n. removeListener n ''touchend'' funct) node5)
         else node3)"

text \<open>A sequence of the three bookkeeping calls on one element.\<close>

datatype 'f listener_call =
    AddListener string 'f
  | RemoveListener string 'f
  | RemoveAllListeners

fun do_call :: "'f node \<Rightarrow> 'f listener_call \<Rightarrow> 'f node" where
  "do_call element (AddListener eventName funct) = addListener element eventName funct"
| "do_call element (RemoveListener eventName funct) = removeListener element eventName funct"
| "do_call element RemoveAllListeners = removeAllListeners element"

definition do_calls :: "'f node \<Rightarrow> 'f listener_call list \<Rightarrow> 'f node" where
  "do_calls element calls = foldl do_call element calls"

section \<open>mxEvent.js: redirectMouseEvents\<close>

text \<open>
  \<^verbatim>\<open>redirectMouseEvents(node, graph, state, down, move, up, dblClick)\<close> installs four
  closures over its arguments. What a closure does when the browser calls it is the
  list of calls it makes, in order: to an override callback, to
  \<^verbatim>\<open>graph.fireMouseEvent\<close> or to \<^verbatim>\<open>graph.dblClick\<close>. The \<^verbatim>\<open>state\<close> argument is a
  cell state (or null) or a function from the event to one.
\<close>

datatype 'c mxCellState = CellState (state_cell: 'c)

datatype ('n, 'c) state_arg =
    StateObject "'c mxCellState option"
  | StateFunction "'n dom_event \<Rightarrow> 'c mxCellState option"

record ('n, 'c, 'cb) redirect_args =
  arg_state :: "('n, 'c) state_arg"
  arg_down :: "'cb option"
  arg_move :: "'cb option"
  arg_up :: "'cb option"
  arg_dblClick :: "'cb option"

datatype ('n, 'c) mxMouseEvent = MouseEvent "'n dom_event" "'c mxCellState option"

datatype ('n, 'c, 'cb) graph_call =
    Override 'cb "'n dom_event"
  | FireMouseEvent string "('n, 'c) mxMouseEvent"
  | DblClick "'n dom_event" "'c option"

definition MOUSE_DOWN :: string where "MOUSE_DOWN = ''mouseDown''"
definition MOUSE_MOVE :: string where "MOUSE_MOVE = ''mouseMove''"
definition MOUSE_UP :: string where "MOUSE_UP = ''mouseUp''"

definition getState :: "('n, 'c, 'cb) redirect_args \<Rightarrow> 'n dom_event \<Rightarrow> 'c mxCellState option" where
  "getState args evt =
     (case arg_state args of StateFunction state \<Rightarrow> state evt | StateObject state \<Rightarrow> state)"

datatype ('n, 'c, 'cb) redirect_listener =
    DownListener "('n, 'c, 'cb) redirect_args"
  | MoveListener "('n, 'c, 'cb) redirect_args"
  | UpListener "('n, 'c, 'cb) redirect_args"
  | DblClickListener "('n, 'c, 'cb) redirect_args"

fun invoke_listener ::
  "('n, 'c, 'cb) redirect_listener \<Rightarrow> 'n dom_event \<Rightarrow> ('n, 'c, 'cb) graph_call list" where
  "invoke_listener (DownListener args) evt =
     (case arg_down args of
        Some down \<Rightarrow> [Override down evt]
      | None \<Rightarrow> if \<not> isConsumed evt
                then [FireMouseEvent MOUSE_DOWN (MouseEvent evt (getState args evt))]
                else [])"
| "invoke_listener (MoveListener args) evt =
     (case arg_move args of
        Some move \<Rightarrow> [Override move evt]
      | None \<Rightarrow> if \<not> isConsumed evt
                then [FireMouseEvent MOUSE_MOVE (MouseEvent evt (getState args evt))]
                else [])"
| "invoke_listener (UpListener args) evt =
     (case arg_up args of
        Some up \<Rightarrow> [Override up evt]
      | None \<Rightarrow> if \<not> isConsumed evt
                then [FireMouseEvent MOUSE_UP (MouseEvent evt (getState args evt))]
                else [])"
| "invoke_listener (DblClickListener args) evt =
     (case arg_dblClick args of
        Some dblClick \<Rightarrow> [Override dblClick evt]
      | None \<Rightarrow> if \<not> isConsumed evt
                then (let tmp = getState args evt
                      in [DblClick evt (case tmp of Some st \<Rightarrow> Some (state_cell st) | None \<Rightarrow> None)])
                else [])"

definition redirectMouseEvents ::
  "mxClient \<Rightarrow> ('n, 'c, 'cb) redirect_listener node \<Rightarrow> ('n, 'c, 'cb) redirect_args
     \<Rightarrow> ('n, 'c, 'cb) redirect_listener node" where
  "redirectMouseEvents client node args =
     (let node1 = addGestureListeners client node
                    (Some (DownListener args)) (Some (MoveListener args)) (Some (UpListener args))
      in addListener node1 ''dblclick'' (DblClickListener args))"

section \<open>mxEvent.js: vocabulary of the statements\<close>

text \<open>The \<^verbatim>\<open>(name, f)\<close> pairs that the bookkeeping array records for an element.\<close>

definition recorded :: "'f node \<Rightarrow> (string \<times> 'f) list" where
  "recorded element =
     (case mxListenerList element of
        None \<Rightarrow> []
      | Some list \<Rightarrow> map (\<lambda>entry. (entry_name entry, entry_f entry)) list)"

text \<open>
  The entries that gesture listeners are documented to have: the pointer events when
  pointer events are supported, otherwise the mouse events, followed by the touch
  events when touch is supported.
\<close>

definition gesture_entries :: "mxClient \<Rightarrow> 'f \<Rightarrow> 'f \<Rightarrow> 'f \<Rightarrow> 'f entry list" where
  "gesture_entries client s m e =
     (if IS_POINTER client
      then [Entry ''pointerdown'' s, Entry ''pointermove'' m, Entry ''pointerup'' e]
      else [Entry ''mousedown'' s, Entry ''mousemove'' m, Entry ''mouseup'' e]
           @ (if IS_TOUCH client
              then [Entry ''touchstart'' s, Entry ''touchmove'' m, Entry ''touchend'' e]
              else []))"

text \<open>The override argument that each of the four redirecting closures tests first.\<close>

fun override_of :: "('n, 'c, 'cb) redirect_listener \<Rightarrow> 'cb option" where
  "override_of (DownListener args) = arg_down args"
| "override_of (MoveListener args) = arg_move args"
| "override_of (UpListener args) = arg_up args"
| "override_of (DblClickListener args) = arg_dblClick args"

text \<open>Concrete events and nodes on which the theorems are exercised.\<close>

definition mouse_event :: "int dom_event" where
  "mouse_event = \<lparr>evtype = ''mousedown'', isConsumedField = None, hasPreventDefault = True,
      hasStopPropagation = True, cancelBubble = None, returnValue = None, touches = None,
      changedTouches = None, clientX = 3, clientY = 4, invoked = []\<rparr>"

definition touch_event :: "string \<Rightarrow> int dom_event" where
  "touch_event ty = \<lparr>evtype = ty, isConsumedField = None, hasPreventDefault = True,
      hasStopPropagation = True, cancelBubble = None, returnValue = None,
      touches = Some [\<lparr>touch_clientX = 10, touch_clientY = 20\<rparr>],
      changedTouches = Some [\<lparr>touch_clientX = 30, touch_clientY = 40\<rparr>],
      clientX = 3, clientY = 4, invoked = []\<rparr>"

definition fresh_node :: "'f node" where
  "fresh_node = \<lparr>mxListenerList = None, native = []\<rparr>"

definition touch_client :: mxClient where
  "touch_client = \<lparr>IS_POINTER = False, IS_TOUCH = True\<rparr>"

definition plain_args :: "(int, nat, nat) redirect_args" where
  "plain_args = \<lparr>arg_state = StateObject None, arg_down = Some 1, arg_move = None,
      arg_up = None, arg_dblClick = None\<rparr>"

section \<open>The transactional graph model\<close>

text \<open>
  The stories under \<^verbatim>\<open>src/\<close> call \<^verbatim>\<open>graph.batchUpdate\<close>, \<^verbatim>\<open>graph.insertVertex\<close>
  and \<^verbatim>\<open>graph.insertEdge\<close>; the graph model, its change log and the undo manager
  behind them are not among the sources. This section models them from the
  specification (sections 3, 4.1, 4.2 and 7), the definitions following its wording.
  The optional per-field notifications of section 4.1 and the view of section 4.3
  are left out.
\<close>

subsection \<open>Cells, geometry and change-log entries\<close>

text \<open>
  Modelled from the spec: the class Geometry is missing. ``Bounds (x, y, width,
  height) for vertices; for edges, optional explicit absolute points and per-terminal
  relative constraint points.''
\<close>

record geometry =
  geo_x :: int
  geo_y :: int
  geo_width :: int
  geo_height :: int
  geo_points :: "(int \<times> int) list"
  geo_sourcePoint :: "(int \<times> int) option"
  geo_targetPoint :: "(int \<times> int) option"

text \<open>
  Modelled from the spec: the class Cell is missing. A cell is ``identity-bearing'';
  it has an opaque value payload, an optional geometry, a style, the flags vertex,
  edge, visible, collapsed and connectable, one parent, an ordered child list and,
  for edges, a source and a target reference that may be null. Cell objects live in
  a heap (a list); the identity of a cell is its position in the heap, and every
  reference to a cell is such a position.
\<close>

type_synonym cell_id = nat

record cell =
  cell_value :: string
  cell_geometry :: "geometry option"
  cell_style :: string
  cell_vertex :: bool
  cell_edge :: bool
  cell_visible :: bool
  cell_collapsed :: bool
  cell_connectable :: bool
  cell_parent :: "cell_id option"
  cell_children :: "cell_id list"
  cell_source :: "cell_id option"
  cell_target :: "cell_id option"

text \<open>
  Modelled from the spec: ChangeLogEntry is missing. ``Tagged variant over
  ChildChange (parent before/after, index before/after), TerminalChange (edge,
  terminal end, old/new terminal), GeometryChange, StyleChange, ValueChange,
  VisibleChange, CollapseChange, RootChange. Each entry is self-describing and
  reversible (stores enough state to both apply and undo it).'' The arguments are
  the cell, then the state before, then the state after; the flag of a
  TerminalChange is true for the source end.
\<close>

datatype change =
    ChildChange cell_id "cell_id option" nat "cell_id option" nat
  | TerminalChange cell_id bool "cell_id option" "cell_id option"
  | GeometryChange cell_id "geometry option" "geometry option"
  | StyleChange cell_id string string
  | ValueChange cell_id string string
  | VisibleChange cell_id bool bool
  | CollapseChange cell_id bool bool
  | RootChange "cell_id option" "cell_id option"

text \<open>
  Modelled from the spec: UndoableEdit and UndoManager are missing. An edit is the
  ``ordered sequence of ChangeLogEntries produced by one outermost transaction''; the
  manager has ``two bounded stacks of UndoableEdit (undo history, redo history), with
  a configurable maximum size''. Both stacks have their most recent edit first.
\<close>

type_synonym undoable_edit = "change list"

record undo_manager =
  undoHistory :: "undoable_edit list"
  redoHistory :: "undoable_edit list"
  maxSize :: nat

text \<open>
  Modelled from the spec: GraphModel is missing. It ``owns the root Cell and the
  default-parent/current-root pointers; holds updateLevel (transaction nesting depth)
  and the accumulating change log for the outermost transaction''. The policy for a
  negative-dimension geometry (``clamps or rejects per configured policy'') is part
  of its configuration.
\<close>

datatype dimension_policy = Clamp | Reject

record graph_model =
  cells :: "cell list"
  root :: "cell_id option"
  defaultParent :: "cell_id option"
  currentRoot :: "cell_id option"
  updateLevel :: nat
  changeLog :: "change list"
  negativePolicy :: dimension_policy

text \<open>
  Modelled from the spec: the wiring of GraphModel to UndoManager and to the event
  bus is missing. The state is the model together with the undo manager that
  receives its edits and the aggregate \<^verbatim>\<open>CHANGE\<close> notifications fired so far
  (oldest first), each with its entry list. A rejected mutation is an
  \<^verbatim>\<open>InvalidMutation\<close>.
\<close>

record graph_state =
  model :: graph_model
  undoManager :: undo_manager
  changeEvents :: "change list list"

datatype model_error = InvalidMutation

subsection \<open>Applying and reverting an entry\<close>

text \<open>
  Modelled from the spec: the execution of an entry is missing. An entry applied
  forward puts its ``after'' state into the heap: a ChildChange takes the cell out of
  the child list of the parent before (at the index before), puts it into the child
  list of the parent after (at the index after) and sets the cell's parent; a
  RootChange sets the root. \<open>upd\<close> changes one cell of the heap, \<open>remove_at\<close> and
  \<open>insert_at\<close> one position of a child list.
\<close>

definition upd :: "cell_id \<Rightarrow> (cell \<Rightarrow> cell) \<Rightarrow> cell list \<Rightarrow> cell list" where
  "upd c f cs = (if c < length cs then cs[c := f (cs ! c)] else cs)"

definition remove_at :: "nat \<Rightarrow> 'a list \<Rightarrow> 'a list" where
  "remove_at i xs = take i xs @ drop (Suc i) xs"

definition insert_at :: "nat \<Rightarrow> 'a \<Rightarrow> 'a list \<Rightarrow> 'a list" where
  "insert_at i x xs = take i xs @ x # drop i xs"

fun apply_cells :: "change \<Rightarrow> cell list \<Rightarrow> cell list" where
  "apply_cells (ChildChange c pb ib pa ia) cs =
     (let cs1 = (case pb of None \<Rightarrow> cs
                 | Some p \<Rightarrow> upd p
                     (\<lambda>cl. cl\<lparr>cell_children := remove_at ib (cell_children cl)\<rparr>) cs);
          cs2 = (case pa of None \<Rightarrow> cs1
                 | Some q \<Rightarrow> upd q
                     (\<lambda>cl. cl\<lparr>cell_children := insert_at ia c (cell_children cl)\<rparr>) cs1)
      in upd c (\<lambda>cl. cl\<lparr>cell_parent := pa\<rparr>) cs2)"
| "apply_cells (TerminalChange e isSource old new) cs =
     upd e (\<lambda>cl. if isSource then cl\<lparr>cell_source := new\<rparr> else cl\<lparr>cell_target := new\<rparr>) cs"
| "apply_cells (GeometryChange c old new) cs = upd c (\<lambda>cl. cl\<lparr>cell_geometry := new\<rparr>) cs"
| "apply_cells (StyleChange c old new) cs = upd c (\<lambda>cl. cl\<lparr>cell_style := new\<rparr>) cs"
| "apply_cells (ValueChange c old new) cs = upd c (\<lambda>cl. cl\<lparr>cell_value := new\<rparr>) cs"
| "apply_cells (VisibleChange c old new) cs = upd c (\<lambda>cl. cl\<lparr>cell_visible := new\<rparr>) cs"
| "apply_cells (CollapseChange c old new) cs = upd c (\<lambda>cl. cl\<lparr>cell_collapsed := new\<rparr>) cs"
| "apply_cells (RootChange old new) cs = cs"

fun apply_root :: "change \<Rightarrow> cell_id option \<Rightarrow> cell_id option" where
  "apply_root (RootChange old new) r = new"
| "apply_root _ r = r"

definition apply_change :: "change \<Rightarrow> graph_model \<Rightarrow> graph_model" where
  "apply_change ch m = m\<lparr>cells := apply_cells ch (cells m), root := apply_root ch (root m)\<rparr>"

text \<open>
  Modelled from the spec: the undo of an entry is missing. It applies ``each entry's
  stored before state'': it is the entry with before and after exchanged, applied
  forward.
\<close>

fun reverse_change :: "change \<Rightarrow> change" where
  "reverse_change (ChildChange c pb ib pa ia) = ChildChange c pa ia pb ib"
| "reverse_change (TerminalChange e isSource old new) = TerminalChange e isSource new old"
| "reverse_change (GeometryChange c old new) = GeometryChange c new old"
| "reverse_change (StyleChange c old new) = StyleChange c new old"
| "reverse_change (ValueChange c old new) = ValueChange c new old"
| "reverse_change (VisibleChange c old new) = VisibleChange c new old"
| "reverse_change (CollapseChange c old new) = CollapseChange c new old"
| "reverse_change (RootChange old new) = RootChange new old"

definition undo_change :: "change \<Rightarrow> graph_model \<Rightarrow> graph_model" where
  "undo_change ch m = apply_change (reverse_change ch) m"

text \<open>
  Modelled from the spec: the step shared by the mutating operations is missing.
  Each primitive mutation ``(b) performs the in-memory mutation, (c) appends the
  corresponding ChangeLogEntry capturing both prior and new state''.
\<close>

definition execute :: "change \<Rightarrow> graph_model \<Rightarrow> graph_model" where
  "execute ch m = (apply_change ch m)\<lparr>changeLog := changeLog m @ [ch]\<rparr>"

subsection \<open>The mutating operations of GraphModel\<close>

text \<open>
  Modelled from the spec: the validation of a reparenting is missing. The index
  before is the position of the cell in its parent's child list. The cycle check
  ``walks ancestors of the proposed parent'': \<open>on_ancestor_path n cs a c\<close> starts at
  \<open>c\<close> and follows the parent references for at most \<open>n\<close> cells; it holds when it
  meets \<open>a\<close>, and also when it has not reached a cell without parent by then (a
  path longer than the heap is itself a cycle).
\<close>

fun index_of :: "'a \<Rightarrow> 'a list \<Rightarrow> nat option" where
  "index_of x [] = None"
| "index_of x (y # ys) = (if x = y then Some 0 else map_option Suc (index_of x ys))"

fun on_ancestor_path :: "nat \<Rightarrow> cell list \<Rightarrow> cell_id \<Rightarrow> cell_id \<Rightarrow> bool" where
  "on_ancestor_path 0 cs a c = True"
| "on_ancestor_path (Suc n) cs a c =
     (if a = c then True
      else if c < length cs then
        (case cell_parent (cs ! c) of None \<Rightarrow> False | Some p \<Rightarrow> on_ancestor_path n cs a p)
      else False)"

text \<open>
  Modelled from the spec: the tree walk of GraphModel is missing. \<open>subtree\<close> lists the
  cells of a subtree ``depth-first'', children before their parent, to a depth of at
  most the size of the heap; the cells in the model are the subtree of the root.
\<close>

fun subtree :: "nat \<Rightarrow> cell list \<Rightarrow> cell_id \<Rightarrow> cell_id list" where
  "subtree 0 cs c = []"
| "subtree (Suc n) cs c =
     (if c < length cs then concat (map (subtree n cs) (cell_children (cs ! c))) @ [c]
      else [])"

definition model_cells :: "graph_model \<Rightarrow> cell_id list" where
  "model_cells m =
     (case root m of None \<Rightarrow> [] | Some r \<Rightarrow> subtree (length (cells m)) (cells m) r)"

text \<open>
  Modelled from the spec: \<^verbatim>\<open>GraphModel.add\<close> is missing. It validates the operation
  (the cells exist, the cell's current parent really lists it, and the new parent is
  neither the cell nor one of its descendants), then moves the cell below the new
  parent, at the given index or at the end, and logs the ChildChange. An invalid
  mutation is ``rejected synchronously, mutation not applied, no ChangeLogEntry
  emitted, caller receives a failure signal''.
\<close>

definition add :: "cell_id \<Rightarrow> cell_id \<Rightarrow> nat option \<Rightarrow> graph_model \<Rightarrow> model_error + graph_model" where
  "add parent child index m =
     (let cs = cells m in
      if \<not> (parent < length cs \<and> child < length cs) then Inl InvalidMutation
      else if on_ancestor_path (length cs) cs child parent then Inl InvalidMutation
      else
        (case cell_parent (cs ! child) of
           None \<Rightarrow>
             (let siblings = cell_children (cs ! parent);
                  ia = (case index of None \<Rightarrow> length siblings | Some i \<Rightarrow> i)
              in if ia \<le> length siblings
                 then Inr (execute (ChildChange child None 0 (Some parent) ia) m)
                 else Inl InvalidMutation)
         | Some p \<Rightarrow>
             if \<not> (p < length cs \<and> p \<noteq> child) then Inl InvalidMutation
             else
               (case index_of child (cell_children (cs ! p)) of
                  None \<Rightarrow> Inl InvalidMutation
                | Some ib \<Rightarrow>
                    (let siblings = (if p = parent then remove_at ib (cell_children (cs ! parent))
                                     else cell_children (cs ! parent));
                         ia = (case index of None \<Rightarrow> length siblings | Some i \<Rightarrow> i)
                     in if ia \<le> length siblings
                        then Inr (execute (ChildChange child (Some p) ib (Some parent) ia) m)
                        else Inl InvalidMutation))))"

text \<open>
  Modelled from the spec: \<^verbatim>\<open>GraphModel.remove\<close> is missing. ``Removing a cell
  removes its subtree depth-first, and for every remaining edge in the model whose
  terminal pointed into the removed subtree, the edge's terminal reference is cleared
  (dangling) rather than the edge being removed -- this must be recorded as its own
  TerminalChange entries.'' \<open>each\<close> runs a step over a list and stops at the first
  failure, so that a removal that fails half-way is rejected as a whole.
\<close>

fun each :: "('a \<Rightarrow> 's \<Rightarrow> model_error + 's) \<Rightarrow> 'a list \<Rightarrow> 's \<Rightarrow> model_error + 's" where
  "each step [] s = Inr s"
| "each step (x # xs) s = (case step x s of Inl err \<Rightarrow> Inl err | Inr s' \<Rightarrow> each step xs s')"

definition detach :: "cell_id \<Rightarrow> graph_model \<Rightarrow> model_error + graph_model" where
  "detach c m =
     (let cs = cells m in
      if \<not> c < length cs then Inl InvalidMutation
      else
        (case cell_parent (cs ! c) of
           None \<Rightarrow> Inr m
         | Some p \<Rightarrow>
             if \<not> (p < length cs \<and> p \<noteq> c) then Inl InvalidMutation
             else
               (case index_of c (cell_children (cs ! p)) of
                  None \<Rightarrow> Inl InvalidMutation
                | Some ib \<Rightarrow> Inr (execute (ChildChange c (Some p) ib None 0) m))))"

definition clear_terminal :: "cell_id list \<Rightarrow> bool \<Rightarrow> cell_id \<Rightarrow> graph_model \<Rightarrow> graph_model" where
  "clear_terminal removed isSource e m =
     (let old = (if isSource then cell_source (cells m ! e) else cell_target (cells m ! e))
      in case old of
           None \<Rightarrow> m
         | Some t \<Rightarrow> if t \<in> set removed then execute (TerminalChange e isSource old None) m
                     else m)"

definition clear_terminals :: "cell_id list \<Rightarrow> cell_id \<Rightarrow> graph_model \<Rightarrow> model_error + graph_model" where
  "clear_terminals removed e m =
     (if e < length (cells m)
      then Inr (clear_terminal removed False e (clear_terminal removed True e m))
      else Inl InvalidMutation)"

definition remove :: "cell_id \<Rightarrow> graph_model \<Rightarrow> model_error + graph_model" where
  "remove c m =
     (if \<not> c < length (cells m) then Inl InvalidMutation
      else
        (let removed = subtree (length (cells m)) (cells m) c
         in case each detach removed m of
              Inl err \<Rightarrow> Inl err
            | Inr m1 \<Rightarrow>
                each (clear_terminals removed)
                  (filter (\<lambda>e. e < length (cells m1) \<and> cell_edge (cells m1 ! e)) (model_cells m1))
                  m1))"

text \<open>
  Modelled from the spec: the setters of GraphModel are missing. Each validates that
  the cells exist and logs one entry with the prior and the new state. A geometry
  with a negative dimension is clamped or rejected, as configured.
\<close>

definition setGeometry :: "cell_id \<Rightarrow> geometry option \<Rightarrow> graph_model \<Rightarrow> model_error + graph_model" where
  "setGeometry c g m =
     (if \<not> c < length (cells m) then Inl InvalidMutation
      else
        (case g of
           None \<Rightarrow> Inr (execute (GeometryChange c (cell_geometry (cells m ! c)) None) m)
         | Some geo \<Rightarrow>
             if geo_width geo < 0 \<or> geo_height geo < 0 then
               (case negativePolicy m of
                  Reject \<Rightarrow> Inl InvalidMutation
                | Clamp \<Rightarrow> Inr (execute (GeometryChange c (cell_geometry (cells m ! c))
                    (Some (geo\<lparr>geo_width := max 0 (geo_width geo),
                               geo_height := max 0 (geo_height geo)\<rparr>))) m))
             else Inr (execute (GeometryChange c (cell_geometry (cells m ! c)) g) m)))"

definition setStyle :: "cell_id \<Rightarrow> string \<Rightarrow> graph_model \<Rightarrow> model_error + graph_model" where
  "setStyle c s m =
     (if c < length (cells m) then Inr (execute (StyleChange c (cell_style (cells m ! c)) s) m)
      else Inl InvalidMutation)"

definition setValue :: "cell_id \<Rightarrow> string \<Rightarrow> graph_model \<Rightarrow> model_error + graph_model" where
  "setValue c v m =
     (if c < length (cells m) then Inr (execute (ValueChange c (cell_value (cells m ! c)) v) m)
      else Inl InvalidMutation)"

definition setTerminal ::
  "cell_id \<Rightarrow> cell_id option \<Rightarrow> bool \<Rightarrow> graph_model \<Rightarrow> model_error + graph_model" where
  "setTerminal e terminal isSource m =
     (if e < length (cells m) \<and> (case terminal of None \<Rightarrow> True | Some t \<Rightarrow> t < length (cells m))
      then Inr (execute (TerminalChange e isSource
             (if isSource then cell_source (cells m ! e) else cell_target (cells m ! e))
             terminal) m)
      else Inl InvalidMutation)"

definition setVisible :: "cell_id \<Rightarrow> bool \<Rightarrow> graph_model \<Rightarrow> model_error + graph_model" where
  "setVisible c v m =
     (if c < length (cells m) then Inr (execute (VisibleChange c (cell_visible (cells m ! c)) v) m)
      else Inl InvalidMutation)"

definition setCollapsed :: "cell_id \<Rightarrow> bool \<Rightarrow> graph_model \<Rightarrow> model_error + graph_model" where
  "setCollapsed c v m =
     (if c < length (cells m)
      then Inr (execute (CollapseChange c (cell_collapsed (cells m ! c)) v) m)
      else Inl InvalidMutation)"

definition setRoot :: "cell_id option \<Rightarrow> graph_model \<Rightarrow> model_error + graph_model" where
  "setRoot r m =
     (if (case r of None \<Rightarrow> True | Some c \<Rightarrow> c < length (cells m))
      then Inr (execute (RootChange (root m) r) m)
      else Inl InvalidMutation)"

text \<open>
  Modelled from the spec: the mutating operations as one interface, ``add, remove,
  setGeometry, setStyle, setValue, setTerminal, setVisible, setCollapsed, setRoot''.
\<close>

datatype mutation =
    Add cell_id cell_id "nat option"
  | Remove cell_id
  | SetGeometry cell_id "geometry option"
  | SetStyle cell_id string
  | SetValue cell_id string
  | SetTerminal cell_id "cell_id option" bool
  | SetVisible cell_id bool
  | SetCollapsed cell_id bool
  | SetRoot "cell_id option"

fun mutate :: "mutation \<Rightarrow> graph_model \<Rightarrow> model_error + graph_model" where
  "mutate (Add parent child index) m = add parent child index m"
| "mutate (Remove c) m = remove c m"
| "mutate (SetGeometry c g) m = setGeometry c g m"
| "mutate (SetStyle c s) m = setStyle c s m"
| "mutate (SetValue c v) m = setValue c v m"
| "mutate (SetTerminal e terminal isSource) m = setTerminal e terminal isSource m"
| "mutate (SetVisible c v) m = setVisible c v m"
| "mutate (SetCollapsed c v) m = setCollapsed c v m"
| "mutate (SetRoot r) m = setRoot r m"

subsection \<open>Transactions and the undo manager\<close>

text \<open>
  Modelled from the spec: \<^verbatim>\<open>UndoManager.undoableEditHappened\<close> is missing. It
  ``pushes edit, clears redo stack, trims undo stack to max size (drops oldest)'';
  ``an edit with zero entries is never pushed''.
\<close>

definition undoableEditHappened :: "undoable_edit \<Rightarrow> undo_manager \<Rightarrow> undo_manager" where
  "undoableEditHappened edit um =
     (if edit = [] then um
      else um\<lparr>undoHistory := take (maxSize um) (edit # undoHistory um), redoHistory := []\<rparr>)"

text \<open>
  Modelled from the spec: \<^verbatim>\<open>beginUpdate\<close> and \<^verbatim>\<open>endUpdate\<close> are missing. ``Only the
  outermost end triggers change-log flushing and notification; inner begin/end pairs
  only adjust the nesting counter. On outermost end: if the log is non-empty, wrap it
  as an UndoableEdit, push to UndoManager, and fire one CHANGE event carrying the
  full entry list.'' An end without an open transaction does nothing.
\<close>

definition beginUpdate :: "graph_state \<Rightarrow> graph_state" where
  "beginUpdate g = g\<lparr>model := (model g)\<lparr>updateLevel := updateLevel (model g) + 1\<rparr>\<rparr>"

definition endUpdate :: "graph_state \<Rightarrow> graph_state" where
  "endUpdate g =
     (let m = model g in
      if updateLevel m = 0 then g
      else if updateLevel m = 1 then
        (if changeLog m \<noteq> [] then
           g\<lparr>model := m\<lparr>updateLevel := 0, changeLog := []\<rparr>,
             undoManager := undoableEditHappened (changeLog m) (undoManager g),
             changeEvents := changeEvents g @ [changeLog m]\<rparr>
         else g\<lparr>model := m\<lparr>updateLevel := 0\<rparr>\<rparr>)
      else g\<lparr>model := m\<lparr>updateLevel := updateLevel m - 1\<rparr>\<rparr>)"

text \<open>
  Modelled from the spec: the implicit transaction is missing. ``Every mutating
  operation must be issued while a transaction is open; the model opens one
  implicitly if none is open and closes it immediately after.'' A rejected mutation
  leaves the state as it was; its failure signal goes to the caller, who goes on.
\<close>

definition attempt :: "mutation \<Rightarrow> graph_state \<Rightarrow> graph_state" where
  "attempt mu g = (case mutate mu (model g) of Inl err \<Rightarrow> g | Inr m \<Rightarrow> g\<lparr>model := m\<rparr>)"

definition perform :: "mutation \<Rightarrow> graph_state \<Rightarrow> graph_state" where
  "perform mu g =
     (if updateLevel (model g) = 0 then endUpdate (attempt mu (beginUpdate g))
      else attempt mu g)"

text \<open>
  Modelled from the spec: the callers of the model are missing. What a caller does
  to the model is a single mutation or a batch bracketed with begin and end, which
  may nest. A list of actions run from outside every transaction is a sequence of
  committed transactions.
\<close>

datatype action = Mutate mutation | BatchUpdate "action list"

fun run_action :: "action \<Rightarrow> graph_state \<Rightarrow> graph_state" where
  "run_action (Mutate mu) g = perform mu g"
| "run_action (BatchUpdate acts) g = endUpdate (fold run_action acts (beginUpdate g))"

definition run_actions :: "action list \<Rightarrow> graph_state \<Rightarrow> graph_state" where
  "run_actions acts g = fold run_action acts g"

text \<open>
  Modelled from the spec: \<^verbatim>\<open>UndoManager.undo\<close> and \<^verbatim>\<open>redo\<close> are missing.
  ``undo() pops the most recent edit, applies its entries in reverse order
  (last-to-first, each entry's stored before state), pushes the edit onto the redo
  stack, and returns the set of cells touched. redo() symmetric: pops from redo
  stack, re-applies entries forward in original order, pushes back to undo stack.''
  On an empty stack both are a no-op and report it (here \<open>None\<close>).
\<close>

definition undo_edit :: "undoable_edit \<Rightarrow> graph_model \<Rightarrow> graph_model" where
  "undo_edit edit m = foldr undo_change edit m"

definition redo_edit :: "undoable_edit \<Rightarrow> graph_model \<Rightarrow> graph_model" where
  "redo_edit edit m = fold apply_change edit m"

fun touched :: "change \<Rightarrow> cell_id list" where
  "touched (ChildChange c pb ib pa ia) = [c]"
| "touched (TerminalChange e isSource old new) = [e]"
| "touched (GeometryChange c old new) = [c]"
| "touched (StyleChange c old new) = [c]"
| "touched (ValueChange c old new) = [c]"
| "touched (VisibleChange c old new) = [c]"
| "touched (CollapseChange c old new) = [c]"
| "touched (RootChange old new) = (case old of None \<Rightarrow> [] | Some c \<Rightarrow> [c])
                                   @ (case new of None \<Rightarrow> [] | Some c \<Rightarrow> [c])"

definition undo :: "graph_state \<Rightarrow> cell_id list option \<times> graph_state" where
  "undo g =
     (case undoHistory (undoManager g) of
        [] \<Rightarrow> (None, g)
      | edit # rest \<Rightarrow>
          (Some (remdups (concat (map touched edit))),
           g\<lparr>model := undo_edit edit (model g),
             undoManager := (undoManager g)\<lparr>undoHistory := rest,
                              redoHistory := edit # redoHistory (undoManager g)\<rparr>\<rparr>))"

definition redo :: "graph_state \<Rightarrow> cell_id list option \<times> graph_state" where
  "redo g =
     (case redoHistory (undoManager g) of
        [] \<Rightarrow> (None, g)
      | edit # rest \<Rightarrow>
          (Some (remdups (concat (map touched edit))),
           g\<lparr>model := redo_edit edit (model g),
             undoManager := (undoManager g)\<lparr>undoHistory := edit # undoHistory (undoManager g),
                              redoHistory := rest\<rparr>\<rparr>))"

text \<open>
  Modelled from the spec: the loop of the first testable property, \<^verbatim>\<open>undo()\<close>
  ``repeated until the undo stack is empty''.
\<close>

function undo_until_empty :: "graph_state \<Rightarrow> graph_state" where
  "undo_until_empty g =
     (if undoHistory (undoManager g) = [] then g else undo_until_empty (snd (undo g)))"
  by pat_completeness auto
termination
  by (relation "measure (\<lambda>g. length (undoHistory (undoManager g)))")
     (auto simp: undo_def split: list.splits)

declare undo_until_empty.simps [simp del]

subsection \<open>The Graph calls of the stories\<close>

text \<open>
  The parameter object of \<^verbatim>\<open>insertVertex\<close> and \<^verbatim>\<open>insertEdge\<close>, with the keys that
  the stories use. A key that is not given is \<open>None\<close>. JavaScript does not type the
  values: \<^verbatim>\<open>position\<close> and \<^verbatim>\<open>size\<close> are meant to be two-element arrays of
  numbers, \<^verbatim>\<open>source\<close> and \<^verbatim>\<open>target\<close> cells, but any key can hold either.
\<close>

datatype param_value = Coordinates int int | CellParam cell_id

record insert_params =
  p_parent :: "cell_id option"
  p_value :: "string option"
  p_position :: "param_value option"
  p_size :: "param_value option"
  p_source :: "param_value option"
  p_target :: "param_value option"
  p_geometryClass :: "string option"

definition no_params :: insert_params where
  "no_params = \<lparr>p_parent = None, p_value = None, p_position = None, p_size = None,
      p_source = None, p_target = None, p_geometryClass = None\<rparr>"

text \<open>
  Modelled from the spec: the constructor of the graph is missing. A new graph has
  ``zero cells besides the default root/parent'': the root and, as its first child,
  the default parent (``normally the first child of the root (ie. layer 0)'', as the
  stories put it). The maximum size of the undo history is configurable.
\<close>

definition blank_cell :: cell where
  "blank_cell = \<lparr>cell_value = [], cell_geometry = None, cell_style = [],
      cell_vertex = False, cell_edge = False, cell_visible = True, cell_collapsed = False,
      cell_connectable = True, cell_parent = None, cell_children = [],
      cell_source = None, cell_target = None\<rparr>"

definition new_graph :: "nat \<Rightarrow> graph_state" where
  "new_graph limit =
     \<lparr>model = \<lparr>cells = [blank_cell\<lparr>cell_children := [1]\<rparr>, blank_cell\<lparr>cell_parent := Some 0\<rparr>],
               root = Some 0, defaultParent = Some 1, currentRoot = None,
               updateLevel = 0, changeLog = [], negativePolicy = Reject\<rparr>,
      undoManager = \<lparr>undoHistory = [], redoHistory = [], maxSize = limit\<rparr>,
      changeEvents = []\<rparr>"

text \<open>
  Modelled from the spec: \<^verbatim>\<open>Graph.getDefaultParent\<close> and the creation of a cell
  object are missing. The former reads the default-parent pointer; a cell object
  created by the caller enters the heap, outside the model's tree and without a log
  entry, and its identity is returned.
\<close>

definition getDefaultParent :: "graph_state \<Rightarrow> cell_id option" where
  "getDefaultParent g = defaultParent (model g)"

definition new_cell :: "cell \<Rightarrow> graph_state \<Rightarrow> cell_id \<times> graph_state" where
  "new_cell cl g =
     (length (cells (model g)), g\<lparr>model := (model g)\<lparr>cells := cells (model g) @ [cl]\<rparr>\<rparr>)"

text \<open>
  Modelled from the spec: \<^verbatim>\<open>Graph.insertVertex\<close> is missing. A vertex is a cell with
  the flag vertex whose geometry is the bounds (x, y, width, height), here the
  \<^verbatim>\<open>position\<close> and the \<^verbatim>\<open>size\<close> of the parameters; it is created and then added
  to the parent with \<^verbatim>\<open>GraphModel.add\<close>. The geometry class of the parameters only
  adds connection constraints to the geometry, which the model does not hold.
\<close>

definition createVertex :: "insert_params \<Rightarrow> cell" where
  "createVertex params =
     blank_cell\<lparr>
       cell_value := (case p_value params of None \<Rightarrow> [] | Some v \<Rightarrow> v),
       cell_geometry :=
         (case (p_position params, p_size params) of
            (Some (Coordinates x y), Some (Coordinates w h)) \<Rightarrow>
              Some \<lparr>geo_x = x, geo_y = y, geo_width = w, geo_height = h, geo_points = [],
                    geo_sourcePoint = None, geo_targetPoint = None\<rparr>
          | _ \<Rightarrow> None),
       cell_vertex := True\<rparr>"

definition insertVertex :: "insert_params \<Rightarrow> graph_state \<Rightarrow> cell_id \<times> graph_state" where
  "insertVertex params g =
     (let (vertex, g1) = new_cell (createVertex params) g
      in (vertex, case p_parent params of
                    None \<Rightarrow> g1
                  | Some parent \<Rightarrow> perform (Add parent vertex None) g1))"

text \<open>
  Modelled from the spec: \<^verbatim>\<open>Graph.insertEdge\<close> is missing. An edge is a cell with
  the flag edge and ``a source and target cell reference (non-owning, may be null =
  dangling edge)'', here the \<^verbatim>\<open>source\<close> and the \<^verbatim>\<open>target\<close> of the parameters; it
  is created and then added to the parent with \<^verbatim>\<open>GraphModel.add\<close>, as one
  ChildChange.
\<close>

definition terminal_param :: "param_value option \<Rightarrow> cell_id option" where
  "terminal_param v = (case v of Some (CellParam c) \<Rightarrow> Some c | _ \<Rightarrow> None)"

definition createEdge :: "insert_params \<Rightarrow> cell" where
  "createEdge params =
     blank_cell\<lparr>
       cell_value := (case p_value params of None \<Rightarrow> [] | Some v \<Rightarrow> v),
       cell_edge := True,
       cell_source := terminal_param (p_source params),
       cell_target := terminal_param (p_target params)\<rparr>"

definition insertEdge :: "insert_params \<Rightarrow> graph_state \<Rightarrow> cell_id \<times> graph_state" where
  "insertEdge params g =
     (let (edge, g1) = new_cell (createEdge params) g
      in (edge, case p_parent params of
                  None \<Rightarrow> g1
                | Some parent \<Rightarrow> perform (Add parent edge None) g1))"

text \<open>
  Modelled from the spec: \<^verbatim>\<open>Graph.batchUpdate\<close> is missing. ``The caller explicitly
  brackets a batch with begin/end calls that may nest.''
\<close>

definition batchUpdate :: "(graph_state \<Rightarrow> 'a \<times> graph_state) \<Rightarrow> graph_state \<Rightarrow> 'a \<times> graph_state" where
  "batchUpdate fn g = (let (result, g1) = fn (beginUpdate g) in (result, endUpdate g1))"

section \<open>The stories\<close>

text \<open>
  What a story leaves behind: the graph, and the cells that its callback bound to
  \<^verbatim>\<open>v1\<close>, \<^verbatim>\<open>v2\<close> and \<^verbatim>\<open>e1\<close>.
\<close>

record story =
  story_v1 :: cell_id
  story_v2 :: cell_id
  story_e1 :: cell_id
  story_graph :: graph_state

text \<open>
  The Anchors story (\<^verbatim>\<open>src/unnamed/part_000\<close>), from \<^verbatim>\<open>graph.getDefaultParent()\<close>
  on. The edge is inserted with \<^verbatim>\<open>position: v1, size: v2\<close>.
\<close>

definition anchors_story :: "graph_state \<Rightarrow> story" where
  "anchors_story graph =
     (let parent = getDefaultParent graph;
          (cs, graph') = batchUpdate (\<lambda>g.
             let (v1, g1) = insertVertex (no_params\<lparr>p_parent := parent,
                              p_value := Some ''Hello,'',
                              p_position := Some (Coordinates 20 20),
                              p_size := Some (Coordinates 80 30),
                              p_geometryClass := Some ''MyCustomGeometryClass''\<rparr>) g;
                 (v2, g2) = insertVertex (no_params\<lparr>p_parent := parent,
                              p_value := Some ''World!'',
                              p_position := Some (Coordinates 200 150),
                              p_size := Some (Coordinates 80 30),
                              p_geometryClass := Some ''MyCustomGeometryClass''\<rparr>) g1;
                 (e1, g3) = insertEdge (no_params\<lparr>p_parent := parent,
                              p_value := Some [],
                              p_position := Some (CellParam v1),
                              p_size := Some (CellParam v2)\<rparr>) g2
             in ((v1, v2, e1), g3)) graph
      in case cs of (v1, v2, e1) \<Rightarrow>
           \<lparr>story_v1 = v1, story_v2 = v2, story_e1 = e1, story_graph = graph'\<rparr>)"

text \<open>
  The DragSource story (the second component of \<^verbatim>\<open>src/src/pages/editing/Editing.js\<close>),
  the body of its loop for one graph. The edge is inserted with
  \<^verbatim>\<open>source: v1, target: v2\<close>.
\<close>

definition dragsource_story :: "graph_state \<Rightarrow> story" where
  "dragsource_story graph =
     (let parent = getDefaultParent graph;
          (cs, graph') = batchUpdate (\<lambda>g.
             let (v1, g1) = insertVertex (no_params\<lparr>p_parent := parent,
                              p_value := Some ''Hello,'',
                              p_position := Some (Coordinates 20 20),
                              p_size := Some (Coordinates 80 30)\<rparr>) g;
                 (v2, g2) = insertVertex (no_params\<lparr>p_parent := parent,
                              p_value := Some ''World!'',
                              p_position := Some (Coordinates 200 150),
                              p_size := Some (Coordinates 80 30)\<rparr>) g1;
                 (e1, g3) = insertEdge (no_params\<lparr>p_parent := parent,
                              p_source := Some (CellParam v1),
                              p_target := Some (CellParam v2)\<rparr>) g2
             in ((v1, v2, e1), g3)) graph
      in case cs of (v1, v2, e1) \<Rightarrow>
           \<lparr>story_v1 = v1, story_v2 = v2, story_e1 = e1, story_graph = graph'\<rparr>)"

text \<open>The cell object behind a reference of a story.\<close>

definition story_cell :: "story \<Rightarrow> cell_id \<Rightarrow> cell option" where
  "story_cell st c =
     (if c < length (cells (model (story_graph st)))
      then Some (cells (model (story_graph st)) ! c) else None)"

definition bounds :: "int \<Rightarrow> int \<Rightarrow> int \<Rightarrow> int \<Rightarrow> geometry" where
  "bounds x y w h = \<lparr>geo_x = x, geo_y = y, geo_width = w, geo_height = h, geo_points = [],
      geo_sourcePoint = None, geo_targetPoint = None\<rparr>"

text \<open>What a story shows of a cell: its value, its geometry, and the terminals of its edge.\<close>

definition value_of :: "story \<Rightarrow> cell_id \<Rightarrow> string option" where
  "value_of st c = map_option cell_value (story_cell st c)"

definition geometry_of :: "story \<Rightarrow> cell_id \<Rightarrow> geometry option" where
  "geometry_of st c = (case story_cell st c of None \<Rightarrow> None | Some cl \<Rightarrow> cell_geometry cl)"

definition edge_terminals :: "story \<Rightarrow> (cell_id option \<times> cell_id option) option" where
  "edge_terminals st =
     map_option (\<lambda>cl. (cell_source cl, cell_target cl)) (story_cell st (story_e1 st))"

section \<open>The graph model: vocabulary of the proofs\<close>

text \<open>
  An entry is recorded at a heap and a root when its ``before'' part is what the heap
  and the root hold, and its indices lie within the child lists involved.
\<close>

fun recorded_at :: "change \<Rightarrow> cell list \<Rightarrow> cell_id option \<Rightarrow> bool" where
  "recorded_at (ChildChange c pb ib pa ia) cs r =
     (c < length cs \<and> cell_parent (cs ! c) = pb \<and> pb \<noteq> Some c \<and> pa \<noteq> Some c
      \<and> (case pb of None \<Rightarrow> True
          | Some p \<Rightarrow> p < length cs \<and> ib < length (cell_children (cs ! p))
                      \<and> cell_children (cs ! p) ! ib = c)
      \<and> (case pa of None \<Rightarrow> True
          | Some q \<Rightarrow> q < length cs
              \<and> ia \<le> length (if pb = Some q then remove_at ib (cell_children (cs ! q))
                              else cell_children (cs ! q))))"
| "recorded_at (TerminalChange e isSource old new) cs r =
     (e < length cs \<longrightarrow> old = (if isSource then cell_source (cs ! e) else cell_target (cs ! e)))"
| "recorded_at (GeometryChange c old new) cs r = (c < length cs \<longrightarrow> old = cell_geometry (cs ! c))"
| "recorded_at (StyleChange c old new) cs r = (c < length cs \<longrightarrow> old = cell_style (cs ! c))"
| "recorded_at (ValueChange c old new) cs r = (c < length cs \<longrightarrow> old = cell_value (cs ! c))"
| "recorded_at (VisibleChange c old new) cs r = (c < length cs \<longrightarrow> old = cell_visible (cs ! c))"
| "recorded_at (CollapseChange c old new) cs r = (c < length cs \<longrightarrow> old = cell_collapsed (cs ! c))"
| "recorded_at (RootChange old new) cs r = (old = r)"

text \<open>Reverting the entries of an edit, last to first, on the heap and on the root.\<close>

definition undo_cells :: "change list \<Rightarrow> cell list \<Rightarrow> cell list" where
  "undo_cells edit cs = foldr (\<lambda>ch. apply_cells (reverse_change ch)) edit cs"

definition undo_root :: "change list \<Rightarrow> cell_id option \<Rightarrow> cell_id option" where
  "undo_root edit r = foldr (\<lambda>ch. apply_root (reverse_change ch)) edit r"

text \<open>
  A model extends another when its change log is the other's followed by new
  entries whose reversal leads back to the other's heap and root, and nothing else
  differs.
\<close>

definition extends :: "graph_model \<Rightarrow> graph_model \<Rightarrow> bool" where
  "extends m m' \<longleftrightarrow>
     (\<exists>new. changeLog m' = changeLog m @ new
        \<and> undo_cells new (cells m') = cells m \<and> undo_root new (root m') = root m)
     \<and> updateLevel m' = updateLevel m \<and> defaultParent m' = defaultParent m
     \<and> currentRoot m' = currentRoot m \<and> negativePolicy m' = negativePolicy m"

text \<open>Reverting the edits of an undo history, most recent first.\<close>

definition rewind_cells :: "undoable_edit list \<Rightarrow> cell list \<Rightarrow> cell list" where
  "rewind_cells history cs = fold undo_cells history cs"

definition rewind_root :: "undoable_edit list \<Rightarrow> cell_id option \<Rightarrow> cell_id option" where
  "rewind_root history r = fold undo_root history r"

text \<open>A state outside every transaction: no transaction is open and the log is empty.\<close>

definition clean :: "graph_state \<Rightarrow> bool" where
  "clean g \<longleftrightarrow> updateLevel (model g) = 0 \<and> changeLog (model g) = []"

text \<open>
  A step inside an open transaction leaves the undo manager and the notifications
  alone and extends the model; a step outside every transaction ends in a clean
  state and either changes nothing or commits one edit.
\<close>

definition inner_step :: "graph_state \<Rightarrow> graph_state \<Rightarrow> bool" where
  "inner_step g g' \<longleftrightarrow> undoManager g' = undoManager g \<and> changeEvents g' = changeEvents g
     \<and> extends (model g) (model g')"

definition top_step :: "graph_state \<Rightarrow> graph_state \<Rightarrow> bool" where
  "top_step g g' \<longleftrightarrow>
     clean g' \<and> maxSize (undoManager g') = maxSize (undoManager g)
     \<and> defaultParent (model g') = defaultParent (model g)
     \<and> currentRoot (model g') = currentRoot (model g)
     \<and> negativePolicy (model g') = negativePolicy (model g)
     \<and> ((undoHistory (undoManager g') = undoHistory (undoManager g)
          \<and> changeEvents g' = changeEvents g
          \<and> cells (model g') = cells (model g) \<and> root (model g') = root (model g))
        \<or> (\<exists>edit. undoHistory (undoManager g')
                      = take (maxSize (undoManager g)) (edit # undoHistory (undoManager g))
              \<and> changeEvents g' = changeEvents g @ [edit]
              \<and> undo_cells edit (cells (model g')) = cells (model g)
              \<and> undo_root edit (root (model g')) = root (model g)))"

text \<open>
  A concrete run on which the undo theorem is exercised: a graph whose heap holds one
  more vertex, not yet added, and two transactions on it.
\<close>

definition example_graph :: graph_state where
  "example_graph = snd (new_cell (createVertex (no_params\<lparr>p_value := Some ''A'',
      p_position := Some (Coordinates 0 0), p_size := Some (Coordinates 80 30)\<rparr>)) (new_graph 2))"

definition example_transactions :: "action list" where
  "example_transactions =
     [BatchUpdate [Mutate (Add 1 2 None), Mutate (SetStyle 2 ''rounded''),
                   BatchUpdate [Mutate (SetGeometry 2 (Some (bounds 5 5 40 40)))],
                   Mutate (Add 2 1 None)],
      Mutate (Remove 2)]"

section \<open>Theorems about mxEvent.js\<close>

subsection \<open>consume and isConsumed\<close>

text \<open>
  A DOM event has both native methods, a legacy event object has neither; on both
  \<^verbatim>\<open>consume\<close> returns for every combination of the flags.
\<close>

lemma consume_returns:
  "hasPreventDefault evt \<longrightarrow> hasStopPropagation evt \<Longrightarrow> \<exists>evt'. consume evt pd sp = Inr evt'"
  by (auto simp: consume_def consume_block_def call_stopPropagation_def call_preventDefault_def
           Let_def split: option.splits)

text \<open>
  C2. For every event object and every combination of the optional
  \<^verbatim>\<open>preventDefault\<close> and \<^verbatim>\<open>stopPropagation\<close> arguments (each absent, true or
  false), once \<^verbatim>\<open>mxEvent.consume\<close> has returned, \<^verbatim>\<open>mxEvent.isConsumed\<close> of the
  event is true.
\<close>

theorem consume_then_isConsumed:
  "consume evt preventDefault stopPropagation = Inr evt' \<Longrightarrow> isConsumed evt'"
  by (auto simp: consume_def isConsumed_def Let_def split: sum.splits if_splits)

theorem consume_then_isConsumed_witness:
  "consume mouse_event None (Some False)
     = Inr (mouse_event\<lparr>isConsumedField := Some True, invoked := [PreventDefault]\<rparr>)
   \<and> isConsumed (mouse_event\<lparr>isConsumedField := Some True, invoked := [PreventDefault]\<rparr>)"
proof -
  have run: "consume mouse_event None (Some False)
     = Inr (mouse_event\<lparr>isConsumedField := Some True, invoked := [PreventDefault]\<rparr>)"
    by (simp add: consume_def consume_block_def call_preventDefault_def mouse_event_def)
  from consume_then_isConsumed [OF run] run show ?thesis by blast
qed

text \<open>
  C10. \<^verbatim>\<open>mxEvent.consume\<close> with \<^verbatim>\<open>preventDefault\<close> false returns, invokes neither
  native method of the event (so \<^verbatim>\<open>evt.stopPropagation\<close> is not called, whatever
  the \<^verbatim>\<open>stopPropagation\<close> argument is: absent, true or false), leaves
  \<^verbatim>\<open>cancelBubble\<close> alone, and still sets \<^verbatim>\<open>evt.isConsumed\<close> to true. This holds
  for every event, in particular for one that has a \<^verbatim>\<open>stopPropagation\<close> method.
\<close>

theorem consume_without_preventDefault:
  "\<exists>evt'. consume evt (Some False) stopPropagation = Inr evt'
      \<and> invoked evt' = invoked evt
      \<and> cancelBubble evt' = cancelBubble evt
      \<and> isConsumedField evt' = Some True"
  by (simp add: consume_def consume_block_def Let_def)

subsection \<open>getClientX and getClientY\<close>

text \<open>
  C7. For a touchstart or touchmove event whose \<^verbatim>\<open>touches\<close> list is non-empty,
  \<^verbatim>\<open>getClientX\<close> and \<^verbatim>\<open>getClientY\<close> return the coordinates of \<^verbatim>\<open>touches[0]\<close>;
  for a touchend event whose \<^verbatim>\<open>changedTouches\<close> list is non-empty, those of
  \<^verbatim>\<open>changedTouches[0]\<close>; for every other event, the event's own
  \<^verbatim>\<open>clientX\<close> and \<^verbatim>\<open>clientY\<close>.
\<close>

theorem getClient_main_event:
  "((evtype e = ''touchstart'' \<or> evtype e = ''touchmove'') \<and> touches e = Some (t # ts)
      \<longrightarrow> getClientX e = touch_clientX t \<and> getClientY e = touch_clientY t)
   \<and> (evtype e = ''touchend'' \<and> changedTouches e = Some (t # ts)
      \<longrightarrow> getClientX e = touch_clientX t \<and> getClientY e = touch_clientY t)
   \<and> (\<not> ((evtype e = ''touchstart'' \<or> evtype e = ''touchmove'') \<and> touches e \<notin> {None, Some []})
      \<and> \<not> (evtype e = ''touchend'' \<and> changedTouches e \<notin> {None, Some []})
      \<longrightarrow> getClientX e = clientX e \<and> getClientY e = clientY e)"
  by (auto simp: getClientX_def getClientY_def getMainEvent_def)

theorem getClient_main_event_witness:
  "getClientX (touch_event ''touchmove'') = 10 \<and> getClientY (touch_event ''touchmove'') = 20
   \<and> getClientX (touch_event ''touchend'') = 30 \<and> getClientY (touch_event ''touchend'') = 40
   \<and> getClientX mouse_event = 3 \<and> getClientY mouse_event = 4"
  using getClient_main_event [of "touch_event ''touchmove''"
          "\<lparr>touch_clientX = 10, touch_clientY = 20\<rparr>" "[]"]
        getClient_main_event [of "touch_event ''touchend''"
          "\<lparr>touch_clientX = 30, touch_clientY = 40\<rparr>" "[]"]
        getClient_main_event [of mouse_event]
  by (simp add: touch_event_def mouse_event_def)

subsection \<open>The bookkeeping array\<close>

lemma mxListenerList_addListener:
  "mxListenerList (addListener element n g) =
     Some ((case mxListenerList element of None \<Rightarrow> [] | Some l \<Rightarrow> l) @ [Entry n g])"
  by (simp add: addListener_def addEventListener_def Let_def)

lemma native_addListener:
  "set (native (addListener element n g)) = insert (n, g) (set (native element))"
  by (auto simp: addListener_def addEventListener_def Let_def)

lemma mxListenerList_removeListener:
  "mxListenerList (removeListener element n g) =
     (case mxListenerList element of
        None \<Rightarrow> None
      | Some l \<Rightarrow> if splice_first g l = [] then None else Some (splice_first g l))"
  by (simp add: removeListener_def removeEventListener_def Let_def split: option.splits)

lemma native_removeListener:
  "native (removeListener element n g) = removeAll (n, g) (native element)"
  by (simp add: removeListener_def removeEventListener_def Let_def split: option.splits)

lemma splice_first_split:
  "g \<notin> entry_f ` set pre \<Longrightarrow> splice_first g (pre @ Entry n g # post) = pre @ post"
  by (induction pre) auto

lemma removeListener_not_empty: "mxListenerList (removeListener element n g) \<noteq> Some []"
  by (simp add: mxListenerList_removeListener split: option.splits)

lemma addListener_not_empty: "mxListenerList (addListener element n g) \<noteq> Some []"
  by (simp add: mxListenerList_addListener)

lemma removeAllListeners_loop_keeps:
  "mxListenerList element \<noteq> Some [] \<Longrightarrow>
     mxListenerList (removeAllListeners_loop element list) \<noteq> Some []"
proof (induction element list rule: removeAllListeners_loop.induct)
  case (1 element list)
  show ?case
  proof (cases "length list > 0")
    case True
    have "mxListenerList (removeAllListeners_loop
            (removeListener element (entry_name (hd list)) (entry_f (hd list)))
            (splice_first (entry_f (hd list)) list)) \<noteq> Some []"
      by (rule "1.IH" [OF True refl removeListener_not_empty])
    with True show ?thesis
      by (subst removeAllListeners_loop.simps) (simp add: Let_def)
  next
    case False
    then show ?thesis using "1.prems" by (subst removeAllListeners_loop.simps) simp
  qed
qed

text \<open>
  \<^verbatim>\<open>removeAllListeners\<close> ends with the field null (unless it was an empty array
  before): the array seen through \<^verbatim>\<open>list\<close> and the element's field stay the same
  array until the last entry goes.
\<close>

lemma removeAllListeners_loop_clears:
  "mxListenerList element = Some list \<Longrightarrow> list \<noteq> [] \<Longrightarrow>
     mxListenerList (removeAllListeners_loop element list) = None"
proof (induction element list rule: removeAllListeners_loop.induct)
  case (1 element list)
  from "1.prems"(2) obtain entry rest where list: "list = entry # rest"
    by (cases list) auto
  let ?element' = "removeListener element (entry_name entry) (entry_f entry)"
  have field: "mxListenerList ?element' = (if rest = [] then None else Some rest)"
    using "1.prems"(1) by (simp add: mxListenerList_removeListener list)
  have unfold: "removeAllListeners_loop element list = removeAllListeners_loop ?element' rest"
    by (subst removeAllListeners_loop.simps) (simp add: list)
  show ?case
  proof (cases "rest = []")
    case True
    then show ?thesis
      using field unfold by (simp add: removeAllListeners_loop.simps [of ?element' "[]"])
  next
    case False
    have "mxListenerList (removeAllListeners_loop ?element'
            (splice_first (entry_f (hd list)) list)) = None"
      using "1.IH" [of "hd list"] field False by (simp add: list)
    then show ?thesis
      using unfold by (simp add: list)
  qed
qed

lemma removeAllListeners_clears:
  "mxListenerList (removeAllListeners element)
     = (if mxListenerList element = Some [] then Some [] else None)"
  by (cases "mxListenerList element")
     (auto simp: removeAllListeners_def removeAllListeners_loop_clears
        removeAllListeners_loop.simps [of element "[]"])

lemma do_call_keeps:
  "mxListenerList element \<noteq> Some [] \<Longrightarrow> mxListenerList (do_call element c) \<noteq> Some []"
  by (cases c)
     (auto simp: removeListener_not_empty addListener_not_empty removeAllListeners_def
        removeAllListeners_loop_keeps split: option.splits)

text \<open>
  C8. On an element whose \<^verbatim>\<open>mxListenerList\<close> is null or a non-empty array (a fresh
  element has none), every finite sequence of \<^verbatim>\<open>addListener\<close>,
  \<^verbatim>\<open>removeListener\<close> and \<^verbatim>\<open>removeAllListeners\<close> calls leaves the field null or a
  non-empty array, never an empty one.
\<close>

theorem mxListenerList_never_empty_array:
  "mxListenerList element \<noteq> Some [] \<Longrightarrow> mxListenerList (do_calls element calls) \<noteq> Some []"
  unfolding do_calls_def
  by (induction calls arbitrary: element) (auto simp: do_call_keeps)

theorem mxListenerList_never_empty_array_witness:
  "mxListenerList (fresh_node :: nat node) \<noteq> Some []
   \<and> mxListenerList (do_calls (fresh_node :: nat node)
        [AddListener ''click'' 1, AddListener ''keydown'' 2, RemoveListener ''click'' 1,
         RemoveAllListeners]) \<noteq> Some []"
  using mxListenerList_never_empty_array [of "fresh_node :: nat node"
          "[AddListener ''click'' 1, AddListener ''keydown'' 2, RemoveListener ''click'' 1,
            RemoveAllListeners]"]
  by (simp add: fresh_node_def)

text \<open>
  C9. \<^verbatim>\<open>removeListener\<close> splices out the first entry whose function is the given
  one, whatever event name that entry records and whatever name is passed. When the
  list holds the function under a first name and, later, under the name passed, and
  the browser holds both registrations, the call takes the entry of the first name
  out of the list and the registration of the passed name out of the browser: the
  list then records a pair the browser no longer has, and the browser still has the
  registration of the first name.
\<close>

theorem removeListener_matches_function_only:
  assumes "mxListenerList element = Some (pre @ Entry n1 g # post)"
      and "g \<notin> entry_f ` set pre"
  shows "mxListenerList (removeListener element n2 g)
           = (if pre @ post = [] then None else Some (pre @ post))
       \<and> (n1 \<noteq> n2 \<and> Entry n2 g \<in> set post \<and> (n1, g) \<in> set (native element)
            \<longrightarrow> (n2, g) \<in> set (recorded (removeListener element n2 g))
              \<and> (n2, g) \<notin> set (native (removeListener element n2 g))
              \<and> (n1, g) \<in> set (native (removeListener element n2 g)))"
proof -
  have list: "mxListenerList (removeListener element n2 g)
           = (if pre @ post = [] then None else Some (pre @ post))"
    using assms by (simp add: mxListenerList_removeListener splice_first_split)
  have "(n2, g) \<in> set (recorded (removeListener element n2 g))" if "Entry n2 g \<in> set post"
    using that list by (force simp: recorded_def)
  then show ?thesis
    using list by (auto simp: native_removeListener)
qed

theorem removeListener_matches_function_only_witness:
  "mxListenerList (removeListener
      \<lparr>mxListenerList = Some [Entry ''mousedown'' (7::nat), Entry ''touchstart'' 7],
       native = [(''mousedown'', 7), (''touchstart'', 7)]\<rparr> ''touchstart'' 7)
     = Some [Entry ''touchstart'' 7]
   \<and> native (removeListener
      \<lparr>mxListenerList = Some [Entry ''mousedown'' (7::nat), Entry ''touchstart'' 7],
       native = [(''mousedown'', 7), (''touchstart'', 7)]\<rparr> ''touchstart'' 7)
     = [(''mousedown'', 7)]"
proof -
  let ?el = "\<lparr>mxListenerList = Some [Entry ''mousedown'' (7::nat), Entry ''touchstart'' 7],
       native = [(''mousedown'', 7), (''touchstart'', 7)]\<rparr>"
  have "mxListenerList ?el = Some ([] @ Entry ''mousedown'' 7 # [Entry ''touchstart'' 7])"
    by simp
  from removeListener_matches_function_only [OF this, of "''touchstart''"]
  show ?thesis by (simp add: native_removeListener)
qed

subsection \<open>Gesture listeners\<close>

lemma addGestureListeners_list:
  assumes "mxListenerList node = None \<or> mxListenerList node = Some []"
  shows "mxListenerList (addGestureListeners client node (Some s) (Some m) (Some e))
           = Some (gesture_entries client s m e)"
  using assms
  by (auto simp: addGestureListeners_def when_given_def gesture_entries_def Let_def
        mxListenerList_addListener)

lemma addGestureListeners_native:
  "set (native (addGestureListeners client node (Some s) (Some m) (Some e)))
     = set (native node)
       \<union> (\<lambda>entry. (entry_name entry, entry_f entry)) ` set (gesture_entries client s m e)"
  by (auto simp: addGestureListeners_def when_given_def gesture_entries_def Let_def
        native_addListener)

lemma removeGestureListeners_list:
  assumes "mxListenerList node = Some (gesture_entries client s m e)"
  shows "mxListenerList (removeGestureListeners client node (Some s) (Some m) (Some e)) = None"
  using assms
  by (cases "IS_POINTER client"; cases "IS_TOUCH client")
     (simp_all add: removeGestureListeners_def when_given_def gesture_entries_def Let_def
        mxListenerList_removeListener)

lemma removeGestureListeners_native:
  "set (native (removeGestureListeners client node (Some s) (Some m) (Some e)))
     = set (native node)
       - (\<lambda>entry. (entry_name entry, entry_f entry)) ` set (gesture_entries client s m e)"
  by (cases "IS_POINTER client"; cases "IS_TOUCH client")
     (auto simp: removeGestureListeners_def when_given_def gesture_entries_def Let_def
        native_removeListener)

text \<open>
  C6. On a node whose recorded listener list is empty (null, or an empty array), with
  three non-null listener functions: \<^verbatim>\<open>addGestureListeners\<close> records exactly the
  entries for pointerdown, pointermove and pointerup when pointer events are
  supported, otherwise those for mousedown, mousemove and mouseup, followed by
  touchstart, touchmove and touchend when touch is supported, and registers the same
  pairs with the browser; \<^verbatim>\<open>removeGestureListeners\<close> with the same node and
  functions then leaves the recorded list null and takes the same pairs out of the
  browser's registrations.
\<close>

theorem gesture_listeners_add_then_remove:
  assumes "mxListenerList node = None \<or> mxListenerList node = Some []"
  shows "mxListenerList (addGestureListeners client node (Some s) (Some m) (Some e))
           = Some (gesture_entries client s m e)
       \<and> mxListenerList (removeGestureListeners client
            (addGestureListeners client node (Some s) (Some m) (Some e))
            (Some s) (Some m) (Some e)) = None
       \<and> set (native (addGestureListeners client node (Some s) (Some m) (Some e)))
           = set (native node)
             \<union> (\<lambda>entry. (entry_name entry, entry_f entry)) ` set (gesture_entries client s m e)
       \<and> set (native (removeGestureListeners client
            (addGestureListeners client node (Some s) (Some m) (Some e))
            (Some s) (Some m) (Some e)))
           = set (native node)
             - (\<lambda>entry. (entry_name entry, entry_f entry)) ` set (gesture_entries client s m e)"
proof -
  let ?added = "addGestureListeners client node (Some s) (Some m) (Some e)"
  have added: "mxListenerList ?added = Some (gesture_entries client s m e)"
    by (rule addGestureListeners_list [OF assms])
  have removed: "mxListenerList (removeGestureListeners client ?added (Some s) (Some m) (Some e))
                   = None"
    by (rule removeGestureListeners_list [OF added])
  show ?thesis
    using added removed
    by (auto simp: removeGestureListeners_native addGestureListeners_native)
qed

theorem gesture_listeners_add_then_remove_witness:
  "mxListenerList (fresh_node :: nat node) = None
   \<and> mxListenerList (addGestureListeners touch_client fresh_node (Some 1) (Some 2) (Some (3::nat)))
       = Some [Entry ''mousedown'' 1, Entry ''mousemove'' 2, Entry ''mouseup'' 3,
               Entry ''touchstart'' 1, Entry ''touchmove'' 2, Entry ''touchend'' 3]
   \<and> mxListenerList (removeGestureListeners touch_client
         (addGestureListeners touch_client fresh_node (Some 1) (Some 2) (Some (3::nat)))
         (Some 1) (Some 2) (Some 3)) = None"
proof -
  have empty: "mxListenerList (fresh_node :: nat node) = None
                 \<or> mxListenerList (fresh_node :: nat node) = Some []"
    by (simp add: fresh_node_def)
  from gesture_listeners_add_then_remove [OF empty, of touch_client 1 2 3]
  show ?thesis by (simp add: gesture_entries_def touch_client_def fresh_node_def)
qed

subsection \<open>redirectMouseEvents\<close>

lemma redirectMouseEvents_list:
  assumes "mxListenerList node = None"
  shows "mxListenerList (redirectMouseEvents client node args)
     = Some (gesture_entries client (DownListener args) (MoveListener args) (UpListener args)
             @ [Entry ''dblclick'' (DblClickListener args)])"
  using assms
  by (simp add: redirectMouseEvents_def mxListenerList_addListener addGestureListeners_list)

text \<open>
  C3. \<^verbatim>\<open>redirectMouseEvents\<close> on a node without recorded listeners installs the
  mouse-down, mouse-move, mouse-up and double-click closures and no other. Called
  with an event for which \<^verbatim>\<open>isConsumed\<close> is true, an installed closure whose
  override argument is null makes no call at all, so neither
  \<^verbatim>\<open>graph.fireMouseEvent\<close> nor \<^verbatim>\<open>graph.dblClick\<close> is invoked. An installed closure
  whose override argument is given calls that override with the event and nothing
  else, whether the event is consumed or not.
\<close>

theorem redirected_listeners_respect_consumed:
  assumes "mxListenerList node = None"
  shows "(\<forall>entry \<in> set (the (mxListenerList (redirectMouseEvents client node args))).
            isConsumed evt \<and> override_of (entry_f entry) = None
              \<longrightarrow> invoke_listener (entry_f entry) evt = [])
       \<and> (\<forall>entry \<in> set (the (mxListenerList (redirectMouseEvents client node args))).
            \<forall>cb. override_of (entry_f entry) = Some cb
              \<longrightarrow> invoke_listener (entry_f entry) evt = [Override cb evt])
       \<and> entry_f ` set (the (mxListenerList (redirectMouseEvents client node args)))
            = {DownListener args, MoveListener args, UpListener args, DblClickListener args}"
  by (auto simp: redirectMouseEvents_list [OF assms] gesture_entries_def)

theorem redirected_listeners_respect_consumed_witness:
  "mxListenerList (redirectMouseEvents touch_client fresh_node plain_args)
     = Some [Entry ''mousedown'' (DownListener plain_args),
             Entry ''mousemove'' (MoveListener plain_args),
             Entry ''mouseup'' (UpListener plain_args),
             Entry ''touchstart'' (DownListener plain_args),
             Entry ''touchmove'' (MoveListener plain_args),
             Entry ''touchend'' (UpListener plain_args),
             Entry ''dblclick'' (DblClickListener plain_args)]
   \<and> isConsumed (mouse_event\<lparr>isConsumedField := Some True\<rparr>)
   \<and> invoke_listener (MoveListener plain_args) (mouse_event\<lparr>isConsumedField := Some True\<rparr>) = []
   \<and> invoke_listener (DblClickListener plain_args) (mouse_event\<lparr>isConsumedField := Some True\<rparr>) = []
   \<and> invoke_listener (DownListener plain_args) (mouse_event\<lparr>isConsumedField := Some True\<rparr>)
       = [Override 1 (mouse_event\<lparr>isConsumedField := Some True\<rparr>)]"
proof -
  have fresh: "mxListenerList (fresh_node :: (int, nat, nat) redirect_listener node) = None"
    by (simp add: fresh_node_def)
  have installed: "mxListenerList (redirectMouseEvents touch_client fresh_node plain_args)
     = Some [Entry ''mousedown'' (DownListener plain_args),
             Entry ''mousemove'' (MoveListener plain_args),
             Entry ''mouseup'' (UpListener plain_args),
             Entry ''touchstart'' (DownListener plain_args),
             Entry ''touchmove'' (MoveListener plain_args),
             Entry ''touchend'' (UpListener plain_args),
             Entry ''dblclick'' (DblClickListener plain_args)]"
    by (simp add: redirectMouseEvents_list [OF fresh] gesture_entries_def touch_client_def)
  have consumed: "isConsumed (mouse_event\<lparr>isConsumedField := Some True\<rparr>)"
    by (simp add: isConsumed_def)
  have none: "override_of (MoveListener plain_args) = None"
             "override_of (DblClickListener plain_args) = None"
    and some: "override_of (DownListener plain_args) = Some 1"
    by (simp_all add: plain_args_def)
  from redirected_listeners_respect_consumed [OF fresh, of touch_client plain_args
         "mouse_event\<lparr>isConsumedField := Some True\<rparr>"]
  show ?thesis
    using installed consumed none some by simp
qed

section \<open>Theorems about the graph model\<close>

subsection \<open>Reverting an entry\<close>

lemma insert_remove_at: "i < length xs \<Longrightarrow> xs ! i = x \<Longrightarrow> insert_at i x (remove_at i xs) = xs"
  using id_take_nth_drop [of i xs] by (simp add: insert_at_def remove_at_def min_def)

lemma remove_insert_at: "i \<le> length xs \<Longrightarrow> remove_at i (insert_at i x xs) = xs"
  by (simp add: insert_at_def remove_at_def min_def)

lemma length_upd [simp]: "length (upd c f cs) = length cs"
  by (simp add: upd_def)

lemma nth_upd: "i < length cs \<Longrightarrow> upd c f cs ! i = (if i = c then f (cs ! c) else cs ! i)"
  by (simp add: upd_def)

lemma upd_upd_id: "(c < length cs \<Longrightarrow> g (f (cs ! c)) = cs ! c) \<Longrightarrow> upd c g (upd c f cs) = cs"
  by (simp add: upd_def)

lemma index_of_Some: "index_of x xs = Some i \<Longrightarrow> i < length xs \<and> xs ! i = x"
  by (induction xs arbitrary: i) (auto split: if_splits)

lemma length_apply_cells [simp]: "length (apply_cells ch cs) = length cs"
  by (cases ch) (simp_all add: Let_def split: option.splits)

lemma child_reverse:
  assumes "recorded_at (ChildChange c pb ib pa ia) cs r"
  shows "apply_cells (ChildChange c pa ia pb ib) (apply_cells (ChildChange c pb ib pa ia) cs) = cs"
proof (rule nth_equalityI)
  show "length (apply_cells (ChildChange c pa ia pb ib) (apply_cells (ChildChange c pb ib pa ia) cs))
          = length cs"
    by (simp only: length_apply_cells)
next
  fix i
  assume "i < length (apply_cells (ChildChange c pa ia pb ib) (apply_cells (ChildChange c pb ib pa ia) cs))"
  then have i: "i < length cs" by (simp only: length_apply_cells)
  show "apply_cells (ChildChange c pa ia pb ib) (apply_cells (ChildChange c pb ib pa ia) cs) ! i = cs ! i"
  proof (cases pb)
    case None
    note pbN = this
    show ?thesis
    proof (cases pa)
      case None
      with pbN assms i show ?thesis by (simp add: Let_def nth_upd)
    next
      case (Some q)
      with pbN assms i show ?thesis
        by (simp add: Let_def nth_upd remove_insert_at)
    qed
  next
    case (Some p)
    note pbS = this
    show ?thesis
    proof (cases pa)
      case None
      with pbS assms i show ?thesis
        by (simp add: Let_def nth_upd insert_remove_at)
    next
      case (Some q)
      show ?thesis
      proof (cases "p = q")
        case True
        with Some pbS assms i show ?thesis
          by (simp add: Let_def nth_upd insert_remove_at remove_insert_at)
      next
        case False
        with Some pbS assms i show ?thesis
          by (simp add: Let_def nth_upd insert_remove_at remove_insert_at)
      qed
    qed
  qed
qed

lemma revert_cells:
  "recorded_at ch cs r \<Longrightarrow> apply_cells (reverse_change ch) (apply_cells ch cs) = cs"
proof (cases ch)
  case (ChildChange c pb ib pa ia)
  assume "recorded_at ch cs r"
  then have "recorded_at (ChildChange c pb ib pa ia) cs r"
    by (simp only: ChildChange)
  then have "apply_cells (ChildChange c pa ia pb ib) (apply_cells (ChildChange c pb ib pa ia) cs) = cs"
    by (rule child_reverse)
  then show ?thesis
    by (simp only: ChildChange reverse_change.simps)
qed (auto simp: upd_upd_id)

lemma revert_root:
  "recorded_at ch cs r \<Longrightarrow> apply_root (reverse_change ch) (apply_root ch r) = r"
  by (cases ch) simp_all

subsection \<open>Every mutation extends the log with entries that revert it\<close>

lemma undo_cells_append: "undo_cells (xs @ ys) cs = undo_cells xs (undo_cells ys cs)"
  by (simp add: undo_cells_def)

lemma undo_root_append: "undo_root (xs @ ys) r = undo_root xs (undo_root ys r)"
  by (simp add: undo_root_def)

lemma undo_edit_fields:
  "cells (undo_edit edit m) = undo_cells edit (cells m)"
  "root (undo_edit edit m) = undo_root edit (root m)"
  "updateLevel (undo_edit edit m) = updateLevel m"
  "changeLog (undo_edit edit m) = changeLog m"
  "defaultParent (undo_edit edit m) = defaultParent m"
  "currentRoot (undo_edit edit m) = currentRoot m"
  "negativePolicy (undo_edit edit m) = negativePolicy m"
  by (induction edit)
     (simp_all add: undo_edit_def undo_cells_def undo_root_def undo_change_def apply_change_def)

lemma extends_refl: "extends m m"
  by (auto simp: extends_def undo_cells_def undo_root_def)

lemma extends_trans: "extends m1 m2 \<Longrightarrow> extends m2 m3 \<Longrightarrow> extends m1 m3"
  unfolding extends_def
  apply (elim conjE exE)
  subgoal for new1 new2
    apply (intro conjI)
        apply (rule exI [of _ "new1 @ new2"])
        apply (simp add: undo_cells_append undo_root_append)
       apply simp_all
    done
  done

lemma extends_execute:
  assumes "recorded_at ch (cells m) (root m)"
  shows "extends m (execute ch m)"
  unfolding extends_def
proof (intro conjI)
  show "\<exists>new. changeLog (execute ch m) = changeLog m @ new
          \<and> undo_cells new (cells (execute ch m)) = cells m
          \<and> undo_root new (root (execute ch m)) = root m"
    by (rule exI [of _ "[ch]"])
       (simp add: execute_def apply_change_def undo_cells_def undo_root_def
          revert_cells [OF assms] revert_root [OF assms])
qed (simp_all add: execute_def apply_change_def)

lemma each_extends:
  assumes step: "\<And>x s s'. step x s = Inr s' \<Longrightarrow> extends s s'"
  shows "each step xs s = Inr s' \<Longrightarrow> extends s s'"
proof (induction xs arbitrary: s)
  case Nil
  then show ?case by (simp add: extends_refl)
next
  case (Cons x xs)
  then show ?case
    by (auto split: sum.splits intro: extends_trans step)
qed

lemma on_ancestor_path_self: "0 < n \<Longrightarrow> on_ancestor_path n cs a a"
  by (cases n) simp_all

lemma add_extends: "add parent child index m = Inr m' \<Longrightarrow> extends m m'"
proof -
  assume a: "add parent child index m = Inr m'"
  have ne: "child < length (cells m) \<Longrightarrow> \<not> on_ancestor_path (length (cells m)) (cells m) child parent
        \<Longrightarrow> parent \<noteq> child"
    using on_ancestor_path_self [of "length (cells m)" "cells m" child]
    by (cases "cells m") auto
  show ?thesis
  proof (cases "cell_parent (cells m ! child)")
    case None
    with a ne show ?thesis
      by (auto simp: add_def Let_def split: if_splits intro!: extends_execute)
  next
    case (Some p)
    with a ne show ?thesis
      by (auto simp: add_def Let_def split: if_splits option.splits
            dest!: index_of_Some intro!: extends_execute)
  qed
qed

lemma detach_extends: "detach c m = Inr m' \<Longrightarrow> extends m m'"
  by (auto simp: detach_def Let_def extends_refl split: if_splits option.splits
        dest!: index_of_Some intro!: extends_execute)

lemma clear_terminal_extends: "extends m (clear_terminal removed isSource e m)"
  by (auto simp: clear_terminal_def Let_def extends_refl split: option.splits
        intro!: extends_execute)

lemma clear_terminals_extends: "clear_terminals removed e m = Inr m' \<Longrightarrow> extends m m'"
  by (auto simp: clear_terminals_def split: if_splits
        intro: extends_trans [OF clear_terminal_extends clear_terminal_extends])

lemma remove_extends: "remove c m = Inr m' \<Longrightarrow> extends m m'"
  by (auto simp: remove_def Let_def split: if_splits sum.splits
        intro: extends_trans [OF each_extends [of detach] each_extends [of "clear_terminals _"]]
               detach_extends clear_terminals_extends)

lemma setters_extend:
  "setGeometry c g m = Inr m' \<Longrightarrow> extends m m'"
  "setStyle c s m = Inr m' \<Longrightarrow> extends m m'"
  "setValue c v m = Inr m' \<Longrightarrow> extends m m'"
  "setTerminal e terminal isSource m = Inr m' \<Longrightarrow> extends m m'"
  "setVisible c b m = Inr m' \<Longrightarrow> extends m m'"
  "setCollapsed c b m = Inr m' \<Longrightarrow> extends m m'"
  "setRoot r m = Inr m' \<Longrightarrow> extends m m'"
  by (auto simp: setGeometry_def setStyle_def setValue_def setTerminal_def setVisible_def
        setCollapsed_def setRoot_def
        split: if_splits option.splits dimension_policy.splits intro!: extends_execute)

lemma mutate_extends: "mutate mu m = Inr m' \<Longrightarrow> extends m m'"
  by (cases mu) (auto intro: add_extends remove_extends setters_extend)

subsection \<open>Transactions\<close>

lemma undo_until_empty_Nil: "undoHistory (undoManager g) = [] \<Longrightarrow> undo_until_empty g = g"
  by (subst undo_until_empty.simps) simp

lemma undo_until_empty_model:
  "undoHistory (undoManager g) = history \<Longrightarrow>
     cells (model (undo_until_empty g)) = rewind_cells history (cells (model g))
   \<and> root (model (undo_until_empty g)) = rewind_root history (root (model g))
   \<and> updateLevel (model (undo_until_empty g)) = updateLevel (model g)
   \<and> changeLog (model (undo_until_empty g)) = changeLog (model g)
   \<and> defaultParent (model (undo_until_empty g)) = defaultParent (model g)
   \<and> currentRoot (model (undo_until_empty g)) = currentRoot (model g)
   \<and> negativePolicy (model (undo_until_empty g)) = negativePolicy (model g)"
proof (induction history arbitrary: g)
  case Nil
  then show ?case
    by (simp add: undo_until_empty_Nil rewind_cells_def rewind_root_def)
next
  case (Cons edit rest)
  have step: "undo_until_empty g = undo_until_empty (snd (undo g))"
    using Cons.prems by (subst undo_until_empty.simps) simp
  have rest: "undoHistory (undoManager (snd (undo g))) = rest"
    using Cons.prems by (simp add: undo_def)
  have m: "model (snd (undo g)) = undo_edit edit (model g)"
    using Cons.prems by (simp add: undo_def)
  show ?case
    unfolding step using Cons.IH [OF rest]
    by (simp add: m undo_edit_fields rewind_cells_def rewind_root_def)
qed

lemma extends_level:
  "extends (m\<lparr>updateLevel := a\<rparr>) m2 \<Longrightarrow> extends m (m2\<lparr>updateLevel := updateLevel m\<rparr>)"
  by (auto simp: extends_def)

lemma attempt_inner:
  "undoManager (attempt mu g) = undoManager g \<and> changeEvents (attempt mu g) = changeEvents g
   \<and> extends (model g) (model (attempt mu g))"
  by (auto simp: attempt_def extends_refl mutate_extends split: sum.splits)

lemma inner_step_refl: "inner_step g g"
  by (simp add: inner_step_def extends_refl)

lemma inner_step_trans: "inner_step g1 g2 \<Longrightarrow> inner_step g2 g3 \<Longrightarrow> inner_step g1 g3"
  by (auto simp: inner_step_def intro: extends_trans)

lemma inner_step_level: "inner_step g g' \<Longrightarrow> updateLevel (model g') = updateLevel (model g)"
  by (simp add: inner_step_def extends_def)

lemma fold_inner:
  assumes "\<And>a g. a \<in> set acts \<Longrightarrow> 0 < updateLevel (model g) \<Longrightarrow> inner_step g (run_action a g)"
  shows "0 < updateLevel (model g) \<Longrightarrow> inner_step g (fold run_action acts g)"
  using assms
proof (induction acts arbitrary: g)
  case Nil
  then show ?case by (simp add: inner_step_refl)
next
  case (Cons a acts)
  have first: "inner_step g (run_action a g)"
    using Cons.prems by simp
  then have "0 < updateLevel (model (run_action a g))"
    using Cons.prems(1) by (simp add: inner_step_level)
  then have "inner_step (run_action a g) (fold run_action acts (run_action a g))"
    using Cons.prems(2) by (intro Cons.IH) simp_all
  with first show ?case
    by (auto intro: inner_step_trans)
qed

lemma batch_inner:
  assumes "0 < updateLevel (model g)"
      and "inner_step (beginUpdate g) g2"
  shows "inner_step g (endUpdate g2)"
proof -
  have l2: "updateLevel (model g2) = updateLevel (model g) + 1"
    using inner_step_level [OF assms(2)] by (simp add: beginUpdate_def)
  have "extends ((model g)\<lparr>updateLevel := updateLevel (model g) + 1\<rparr>) (model g2)"
    using assms(2) by (simp add: inner_step_def beginUpdate_def)
  then have "extends (model g) ((model g2)\<lparr>updateLevel := updateLevel (model g)\<rparr>)"
    by (rule extends_level)
  then show ?thesis
    using assms l2 by (simp add: inner_step_def endUpdate_def Let_def beginUpdate_def)
qed

lemma run_action_inner:
  "0 < updateLevel (model g) \<Longrightarrow> inner_step g (run_action a g)"
proof (induction a g rule: run_action.induct)
  case (1 mu g)
  then show ?case
    using attempt_inner [of mu g] by (simp add: perform_def inner_step_def)
next
  case (2 acts g)
  have "inner_step (beginUpdate g) (fold run_action acts (beginUpdate g))"
    by (rule fold_inner) (use "2.IH" in \<open>simp_all add: beginUpdate_def\<close>)
  then show ?case
    using "2.prems" by (simp add: batch_inner)
qed

lemma commit_top:
  assumes "clean g" and "inner_step (beginUpdate g) g2"
  shows "top_step g (endUpdate g2)"
proof -
  from assms(2) have um: "undoManager g2 = undoManager g" and ev: "changeEvents g2 = changeEvents g"
    and ext: "extends (model (beginUpdate g)) (model g2)"
    by (simp_all add: inner_step_def beginUpdate_def)
  from ext assms(1) obtain new where
    log: "changeLog (model g2) = new"
    and cs: "undo_cells new (cells (model g2)) = cells (model g)"
    and rt: "undo_root new (root (model g2)) = root (model g)"
    and lv: "updateLevel (model g2) = 1"
    and rest: "defaultParent (model g2) = defaultParent (model g)"
      "currentRoot (model g2) = currentRoot (model g)"
      "negativePolicy (model g2) = negativePolicy (model g)"
    by (auto simp: extends_def beginUpdate_def clean_def)
  show ?thesis
  proof (cases "new = []")
    case True
    with log cs rt lv rest um ev show ?thesis
      by (simp add: top_step_def endUpdate_def Let_def clean_def undo_cells_def undo_root_def)
  next
    case False
    with log cs rt lv rest um ev show ?thesis
      by (simp add: top_step_def endUpdate_def Let_def clean_def undoableEditHappened_def)
  qed
qed

lemma run_action_top: "clean g \<Longrightarrow> top_step g (run_action a g)"
proof (cases a)
  case (Mutate mu)
  assume c: "clean g"
  have "inner_step (beginUpdate g) (attempt mu (beginUpdate g))"
    using attempt_inner [of mu "beginUpdate g"] by (simp add: inner_step_def)
  from commit_top [OF c this] c Mutate show ?thesis
    by (simp add: perform_def clean_def)
next
  case (BatchUpdate acts)
  assume c: "clean g"
  have "inner_step (beginUpdate g) (fold run_action acts (beginUpdate g))"
    by (rule fold_inner) (simp_all add: run_action_inner beginUpdate_def)
  from commit_top [OF c this] BatchUpdate show ?thesis by simp
qed

lemma run_actions_events:
  "clean g \<Longrightarrow> clean (run_actions acts g)
     \<and> length (changeEvents g) \<le> length (changeEvents (run_actions acts g))"
proof (induction acts arbitrary: g)
  case Nil
  then show ?case by (simp add: run_actions_def)
next
  case (Cons a acts)
  from run_action_top [OF Cons.prems, of a]
  have c1: "clean (run_action a g)"
    and "length (changeEvents g) \<le> length (changeEvents (run_action a g))"
    by (auto simp: top_step_def)
  with Cons.IH [OF c1] show ?case
    by (simp add: run_actions_def)
qed

lemma run_actions_rewind:
  assumes "clean g"
      and "length (undoHistory (undoManager g)) + length (changeEvents (run_actions acts g))
             \<le> maxSize (undoManager g) + length (changeEvents g)"
  shows "rewind_cells (undoHistory (undoManager (run_actions acts g))) (cells (model (run_actions acts g)))
           = rewind_cells (undoHistory (undoManager g)) (cells (model g))
       \<and> rewind_root (undoHistory (undoManager (run_actions acts g))) (root (model (run_actions acts g)))
           = rewind_root (undoHistory (undoManager g)) (root (model g))
       \<and> defaultParent (model (run_actions acts g)) = defaultParent (model g)
       \<and> currentRoot (model (run_actions acts g)) = currentRoot (model g)
       \<and> negativePolicy (model (run_actions acts g)) = negativePolicy (model g)"
  using assms
proof (induction acts arbitrary: g)
  case Nil
  then show ?case by (simp add: run_actions_def)
next
  case (Cons a acts)
  let ?g1 = "run_action a g"
  have run: "run_actions (a # acts) g = run_actions acts ?g1"
    by (simp add: run_actions_def)
  have top: "top_step g ?g1"
    by (rule run_action_top [OF Cons.prems(1)])
  then have c1: "clean ?g1" and size: "maxSize (undoManager ?g1) = maxSize (undoManager g)"
    by (simp_all add: top_step_def)
  have mono: "length (changeEvents ?g1) \<le> length (changeEvents (run_actions acts ?g1))"
    using run_actions_events [OF c1] by simp
  from top consider
    (same) "undoHistory (undoManager ?g1) = undoHistory (undoManager g)"
      "changeEvents ?g1 = changeEvents g"
      "cells (model ?g1) = cells (model g)" "root (model ?g1) = root (model g)"
  | (push) edit where
      "undoHistory (undoManager ?g1)
         = take (maxSize (undoManager g)) (edit # undoHistory (undoManager g))"
      "changeEvents ?g1 = changeEvents g @ [edit]"
      "undo_cells edit (cells (model ?g1)) = cells (model g)"
      "undo_root edit (root (model ?g1)) = root (model g)"
    by (auto simp: top_step_def)
  then show ?case
  proof cases
    case same
    have "length (undoHistory (undoManager ?g1)) + length (changeEvents (run_actions acts ?g1))
            \<le> maxSize (undoManager ?g1) + length (changeEvents ?g1)"
      using Cons.prems(2) same size by (simp add: run)
    from Cons.IH [OF c1 this] top same show ?thesis
      by (simp add: run top_step_def)
  next
    case push
    have room: "length (undoHistory (undoManager g)) < maxSize (undoManager g)"
      using Cons.prems(2) mono push(2) by (simp add: run)
    then have hist: "undoHistory (undoManager ?g1) = edit # undoHistory (undoManager g)"
      using push(1) by simp
    have "length (undoHistory (undoManager ?g1)) + length (changeEvents (run_actions acts ?g1))
            \<le> maxSize (undoManager ?g1) + length (changeEvents ?g1)"
      using Cons.prems(2) push(2) hist size by (simp add: run)
    from Cons.IH [OF c1 this] top push(3,4) show ?thesis
      by (simp add: run top_step_def hist rewind_cells_def rewind_root_def)
  qed
qed

text \<open>
  C1, as it holds. From a state outside every transaction whose undo history is
  empty, run any sequence of committed transactions (single mutations and batches,
  nested or not, valid or rejected). If the transactions that committed an edit, one
  \<^verbatim>\<open>CHANGE\<close> notification each, are no more than the maximum size of the undo
  manager, so that the history dropped none, then \<^verbatim>\<open>undo()\<close> repeated until the
  undo stack is empty restores the model exactly: the heap of cells with their
  parents, child lists, geometries, styles, values and terminals, and the root.
\<close>

theorem undo_until_empty_restores:
  assumes "updateLevel (model g) = 0" and "changeLog (model g) = []"
      and "undoHistory (undoManager g) = []"
      and "length (changeEvents (run_actions acts g))
             \<le> length (changeEvents g) + maxSize (undoManager g)"
  shows "model (undo_until_empty (run_actions acts g)) = model g"
proof -
  have c: "clean g" using assms(1,2) by (simp add: clean_def)
  let ?g' = "run_actions acts g"
  have c': "clean ?g'" using run_actions_events [OF c] by simp
  have rw: "rewind_cells (undoHistory (undoManager ?g')) (cells (model ?g')) = cells (model g)"
    "rewind_root (undoHistory (undoManager ?g')) (root (model ?g')) = root (model g)"
    "defaultParent (model ?g') = defaultParent (model g)"
    "currentRoot (model ?g') = currentRoot (model g)"
    "negativePolicy (model ?g') = negativePolicy (model g)"
    using run_actions_rewind [OF c, of acts] assms(3,4)
    by (simp_all add: rewind_cells_def rewind_root_def)
  show ?thesis
    using undo_until_empty_model [OF refl, of ?g'] rw c' assms(1,2)
    by (intro graph_model.equality) (simp_all add: clean_def)
qed

theorem undo_until_empty_restores_witness:
  "length (changeEvents (run_actions example_transactions example_graph)) = 2
   \<and> maxSize (undoManager example_graph) = 2
   \<and> model (run_actions example_transactions example_graph) \<noteq> model example_graph
   \<and> model (undo_until_empty (run_actions example_transactions example_graph))
       = model example_graph"
proof -
  have level: "updateLevel (model example_graph) = 0"
    and log: "changeLog (model example_graph) = []"
    and history: "undoHistory (undoManager example_graph) = []"
    by code_simp+
  have events: "length (changeEvents (run_actions example_transactions example_graph)) = 2"
    by code_simp
  have size: "maxSize (undoManager example_graph) = 2"
    and none: "changeEvents example_graph = []"
    by code_simp+
  have changed: "model (run_actions example_transactions example_graph) \<noteq> model example_graph"
    by code_simp
  have room: "length (changeEvents (run_actions example_transactions example_graph))
                \<le> length (changeEvents example_graph) + maxSize (undoManager example_graph)"
    by (simp add: events size none)
  from undo_until_empty_restores [OF level log history room] events size changed
  show ?thesis by simp
qed

text \<open>
  C1, as stated, fails: with an undo history of maximum size 1, the second of two
  committed transactions drops the edit of the first, and undoing until the stack is
  empty leaves the value that the first transaction wrote.
\<close>

theorem undo_until_empty_counterexample:
  "updateLevel (model (new_graph 1)) = 0 \<and> changeLog (model (new_graph 1)) = []
   \<and> undoHistory (undoManager (new_graph 1)) = []
   \<and> model (undo_until_empty
        (run_actions [Mutate (SetValue 1 ''b''), Mutate (SetValue 1 ''c'')] (new_graph 1)))
       \<noteq> model (new_graph 1)"
  by code_simp

section \<open>Theorems about the stories\<close>

text \<open>
  C4. In the Anchors story the two vertices are `Hello,' and `World!', but the edge
  that the story inserts has neither a source nor a target terminal: the story passes
  the vertices as \<^verbatim>\<open>position\<close> and \<^verbatim>\<open>size\<close>. In the DragSource story, which
  passes them as \<^verbatim>\<open>source\<close> and \<^verbatim>\<open>target\<close>, the edge has the first vertex as its
  source and the second as its target.
\<close>

theorem anchors_story_edge_without_terminals:
  "value_of (anchors_story (new_graph n)) (story_v1 (anchors_story (new_graph n))) = Some ''Hello,''
   \<and> value_of (anchors_story (new_graph n)) (story_v2 (anchors_story (new_graph n))) = Some ''World!''
   \<and> edge_terminals (anchors_story (new_graph n)) = Some (None, None)
   \<and> edge_terminals (dragsource_story (new_graph n))
       = Some (Some (story_v1 (dragsource_story (new_graph n))),
               Some (story_v2 (dragsource_story (new_graph n))))"
  by code_simp

text \<open>
  C5, as stated, fails: in neither story is the geometry of the first vertex
  (0, 0, 80, 30).
\<close>

theorem story_vertex_geometry_counterexample:
  "geometry_of (anchors_story (new_graph 100)) (story_v1 (anchors_story (new_graph 100)))
     \<noteq> Some (bounds 0 0 80 30)
   \<and> geometry_of (dragsource_story (new_graph 100)) (story_v1 (dragsource_story (new_graph 100)))
     \<noteq> Some (bounds 0 0 80 30)"
  by code_simp

text \<open>
  C5, as it holds. A new graph has no cells besides the root and the default parent.
  On it, each of the two stories inserts vertex `Hello,' with geometry
  (20, 20, 80, 30) and vertex `World!' with geometry (200, 150, 80, 30), and both
  insertions belong to a single transaction: the story fires one \<^verbatim>\<open>CHANGE\<close>
  notification, whose entries are the additions of the two vertices and of the edge
  to the default parent.
\<close>

theorem stories_insert_vertices_in_one_transaction:
  "model_cells (model (new_graph n)) = [1, 0]
   \<and> getDefaultParent (new_graph n) = Some 1
   \<and> value_of (anchors_story (new_graph n)) (story_v1 (anchors_story (new_graph n)))
       = Some ''Hello,''
   \<and> geometry_of (anchors_story (new_graph n)) (story_v1 (anchors_story (new_graph n)))
       = Some (bounds 20 20 80 30)
   \<and> value_of (anchors_story (new_graph n)) (story_v2 (anchors_story (new_graph n)))
       = Some ''World!''
   \<and> geometry_of (anchors_story (new_graph n)) (story_v2 (anchors_story (new_graph n)))
       = Some (bounds 200 150 80 30)
   \<and> changeEvents (story_graph (anchors_story (new_graph n)))
       = [ [ChildChange (story_v1 (anchors_story (new_graph n))) None 0 (Some 1) 0,
           ChildChange (story_v2 (anchors_story (new_graph n))) None 0 (Some 1) 1,
           ChildChange (story_e1 (anchors_story (new_graph n))) None 0 (Some 1) 2]]
   \<and> value_of (dragsource_story (new_graph n)) (story_v1 (dragsource_story (new_graph n)))
       = Some ''Hello,''
   \<and> geometry_of (dragsource_story (new_graph n)) (story_v1 (dragsource_story (new_graph n)))
       = Some (bounds 20 20 80 30)
   \<and> value_of (dragsource_story (new_graph n)) (story_v2 (dragsource_story (new_graph n)))
       = Some ''World!''
   \<and> geometry_of (dragsource_story (new_graph n)) (story_v2 (dragsource_story (new_graph n)))
       = Some (bounds 200 150 80 30)
   \<and> changeEvents (story_graph (dragsource_story (new_graph n)))
       = [ [ChildChange (story_v1 (dragsource_story (new_graph n))) None 0 (Some 1) 0,
           ChildChange (story_v2 (dragsource_story (new_graph n))) None 0 (Some 1) 1,
           ChildChange (story_e1 (dragsource_story (new_graph n))) None 0 (Some 1) 2]]"
  by code_simp

end
